theory Spec2Isabelle
  imports Main "HOL-Library.Word" "HOL-Library.Sublist"
begin

unbundle bit_operations_syntax

section \<open>The bridge-compatibility module (datapath/brcompat.c)\<close>

text \<open>
  The module turns legacy bridge ioctls into generic-netlink requests, multicasts each
  request to the userspace daemon and blocks the caller until the daemon's reply arrives
  or five seconds have passed. This theory embeds the request/reply core
  (\<open>brc_send_command\<close>, \<open>brc_genl_dp_result\<close>) and the ioctl adapters that decode
  replies (\<open>brc_send_simple_command\<close>, \<open>brc_get_indices\<close>, \<open>brc_get_fdb_entries\<close>).

  Conventions of the embedding:
  \<^item> the file-scope variables \<open>brc_seq\<close>, \<open>brc_reply\<close>, \<open>brc_done\<close> and \<open>brc_serial\<close>
    are the fields of one record, passed in and returned;
  \<^item> every call the code makes to a kernel primitive is appended to the ghost field
    \<open>klog\<close>, in program order, so that "under the lock" and "before the send" are
    statements about that list; writes to \<open>brc_seq\<close> and \<open>brc_reply\<close> are logged too;
  \<^item> what the environment decides (whether an allocation succeeds, what the transport
    returns, which messages the daemon sends and when, how much of the caller's buffer
    is writable) is an explicit argument;
  \<^item> \<open>ERR_PTR(e)\<close> is \<open>Inl e\<close>, a valid pointer is \<open>Inr\<close>; a read through a NULL
    pointer is the outcome \<open>Fault\<close>;
  \<^item> \<open>brc_serial\<close> lets one caller at a time into \<open>brc_send_command\<close>, so calls are
    modelled one after the other, each entered with the mutex free; the handler, which
    does not take the mutex, is interleaved with a call wherever that can make a
    difference;
  \<^item> \<open>printk\<close> and \<open>nlmsg_end\<close> touch nothing the module reads and are left out.
\<close>

subsection \<open>Error numbers (asm-generic/errno.h)\<close>

definition EFAULT :: int where "EFAULT = 14"
definition ENOMEM :: int where "ENOMEM = 12"
definition EINVAL :: int where "EINVAL = 22"
definition ERANGE :: int where "ERANGE = 34"
definition ETIMEDOUT :: int where "ETIMEDOUT = 110"
definition ESTALE :: int where "ESTALE = 116"

lemmas errno_defs = EFAULT_def ENOMEM_def EINVAL_def ERANGE_def ETIMEDOUT_def ESTALE_def

subsection \<open>Netlink messages\<close>

type_synonym u8 = "8 word"
type_synonym u32 = "32 word"

text \<open>
  Modelled from the spec: the attribute and command identifiers are declared in
  openvswitch/brcompat-netlink.h, which is not among the sources. One constructor stands
  for each identifier that brcompat.c names; the spec (section 6) lists the same
  attributes and operation codes. Only their being distinct matters.
\<close>

datatype brc_attr =
    BRC_GENL_A_DP_NAME
  | BRC_GENL_A_PORT_NAME
  | BRC_GENL_A_ERR_CODE
  | BRC_GENL_A_MC_GROUP
  | BRC_GENL_A_PROC_DIR
  | BRC_GENL_A_PROC_NAME
  | BRC_GENL_A_PROC_DATA
  | BRC_GENL_A_IFINDEXES
  | BRC_GENL_A_FDB_COUNT
  | BRC_GENL_A_FDB_SKIP
  | BRC_GENL_A_FDB_DATA

datatype brc_cmd =
    BRC_GENL_C_DP_ADD
  | BRC_GENL_C_DP_DEL
  | BRC_GENL_C_PORT_ADD
  | BRC_GENL_C_PORT_DEL
  | BRC_GENL_C_QUERY_MC
  | BRC_GENL_C_SET_PROC
  | BRC_GENL_C_DP_RESULT
  | BRC_GENL_C_GET_BRIDGES
  | BRC_GENL_C_GET_PORTS
  | BRC_GENL_C_FDB_QUERY

text \<open>
  A socket buffer holding one generic-netlink message: the sequence number of its
  netlink header, its command, and its attributes in wire order, each a type and a
  payload of raw bytes.
\<close>

record sk_buff =
  nlmsg_seq :: u32
  genl_cmd :: brc_cmd
  nlattrs :: "(brc_attr \<times> u8 list) list"

text \<open>The attribute table that parsing fills: \<open>attrs[type]\<close>, NULL when absent.\<close>

type_synonym nlattr_tab = "brc_attr \<Rightarrow> u8 list option"

datatype nla_type = NLA_UNSPEC | NLA_U32 | NLA_NUL_STRING

text \<open>
  \<open>brc_genl_policy\<close> (lines 401-410). Entries the initialiser does not list are
  zero, that is \<open>NLA_UNSPEC\<close>.
\<close>

fun brc_genl_policy :: "brc_attr \<Rightarrow> nla_type" where
  "brc_genl_policy BRC_GENL_A_ERR_CODE = NLA_U32"
| "brc_genl_policy BRC_GENL_A_PROC_DIR = NLA_NUL_STRING"
| "brc_genl_policy BRC_GENL_A_PROC_NAME = NLA_NUL_STRING"
| "brc_genl_policy BRC_GENL_A_PROC_DATA = NLA_NUL_STRING"
| "brc_genl_policy BRC_GENL_A_FDB_DATA = NLA_UNSPEC"
| "brc_genl_policy _ = NLA_UNSPEC"

text \<open>
  The kernel's netlink library, as far as the module relies on it. \<open>validate_nla\<close>
  checks one attribute against its policy entry (no entry has a length bound here):
  a \<open>NLA_U32\<close> payload has at least four bytes, a \<open>NLA_NUL_STRING\<close> payload is not
  empty and contains a NUL, \<open>NLA_UNSPEC\<close> accepts everything.
\<close>

definition validate_nla :: "(brc_attr \<Rightarrow> nla_type) \<Rightarrow> brc_attr \<Rightarrow> u8 list \<Rightarrow> int" where
  "validate_nla policy t d =
     (case policy t of
        NLA_UNSPEC \<Rightarrow> 0
      | NLA_U32 \<Rightarrow> (if length d < 4 then - ERANGE else 0)
      | NLA_NUL_STRING \<Rightarrow> (if d = [] \<or> 0 \<notin> set d then - EINVAL else 0))"

text \<open>
  \<open>nla_parse\<close> walks the attributes in wire order, stops with the error of the first
  attribute that fails validation, and otherwise records each attribute in the table (a
  later attribute of the same type replaces an earlier one). The table starts zeroed.
\<close>

fun nla_parse ::
  "(brc_attr \<Rightarrow> nla_type) \<Rightarrow> (brc_attr \<times> u8 list) list \<Rightarrow> nlattr_tab \<Rightarrow> int \<times> nlattr_tab"
where
  "nla_parse policy [] tb = (0, tb)"
| "nla_parse policy ((t, d) # rest) tb =
     (let err = validate_nla policy t d
      in if err < 0 then (err, tb) else nla_parse policy rest (tb(t \<mapsto> d)))"

definition nlmsg_parse :: "sk_buff \<Rightarrow> (brc_attr \<Rightarrow> nla_type) \<Rightarrow> int \<times> nlattr_tab" where
  "nlmsg_parse skb policy = nla_parse policy (nlattrs skb) (\<lambda>_. None)"

text \<open>
  \<open>nla_get_u32\<close> reads the first four payload bytes in host order (little-endian here).
  Reading through a NULL attribute, or past a payload shorter than four bytes, is
  \<open>None\<close>.
\<close>

fun nla_get_u32 :: "u8 list option \<Rightarrow> u32 option" where
  "nla_get_u32 (Some (b0 # b1 # b2 # b3 # _)) =
     Some (ucast b0 OR push_bit 8 (ucast b1) OR push_bit 16 (ucast b2) OR push_bit 24 (ucast b3))"
| "nla_get_u32 _ = None"

subsection \<open>The shared state and the kernel primitives\<close>

datatype kcall =
    Mutex_lock
  | Mutex_unlock
  | Spin_lock_irqsave
  | Spin_unlock_irqrestore
  | Init_completion
  | Complete
  | Wait_for_completion_timeout nat
  | Genlmsg_new
  | Genlmsg_multicast sk_buff
  | Skb_clone
  | Kfree_skb sk_buff
  | Copy_to_user "u8 list"
  | Rtnl_lock
  | Rtnl_unlock
  | Warn_on
  | Set_brc_seq u32
  | Set_brc_reply "sk_buff option"

text \<open>
  Lines 34-40: \<open>brc_serial\<close> (is the mutex held), \<open>brc_done\<close> (the \<open>done\<close> counter of
  the completion, an unsigned int), \<open>brc_reply\<close> (NULL or the reply) and \<open>brc_seq\<close>.
\<close>

record brc_state =
  brc_serial :: bool
  brc_done :: u32
  brc_reply :: "sk_buff option"
  brc_seq :: u32
  klog :: "kcall list"

definition kcall :: "kcall \<Rightarrow> brc_state \<Rightarrow> brc_state" where
  "kcall c st = st\<lparr>klog := klog st @ [c]\<rparr>"

definition mutex_lock :: "brc_state \<Rightarrow> brc_state" where
  "mutex_lock st = kcall Mutex_lock (st\<lparr>brc_serial := True\<rparr>)"

definition mutex_unlock :: "brc_state \<Rightarrow> brc_state" where
  "mutex_unlock st = kcall Mutex_unlock (st\<lparr>brc_serial := False\<rparr>)"

definition INIT_COMPLETION :: "brc_state \<Rightarrow> brc_state" where
  "INIT_COMPLETION st = kcall Init_completion (st\<lparr>brc_done := 0\<rparr>)"

definition complete :: "brc_state \<Rightarrow> brc_state" where
  "complete st = kcall Complete (st\<lparr>brc_done := brc_done st + 1\<rparr>)"

definition set_brc_seq :: "u32 \<Rightarrow> brc_state \<Rightarrow> brc_state" where
  "set_brc_seq v st = kcall (Set_brc_seq v) (st\<lparr>brc_seq := v\<rparr>)"

definition set_brc_reply :: "sk_buff option \<Rightarrow> brc_state \<Rightarrow> brc_state" where
  "set_brc_reply v st = kcall (Set_brc_reply v) (st\<lparr>brc_reply := v\<rparr>)"

lemmas prim_defs =
  kcall_def mutex_lock_def mutex_unlock_def INIT_COMPLETION_def complete_def
  set_brc_seq_def set_brc_reply_def

subsection \<open>The inbound handler\<close>

record genl_info =
  snd_seq :: u32
  attrs :: nlattr_tab

text \<open>
  \<open>brc_genl_dp_result\<close> (lines 412-441). \<open>clone_ok\<close> says whether \<open>skb_clone\<close>
  returns a buffer; the clone has the contents of the original.
\<close>

definition brc_genl_dp_result ::
  "bool \<Rightarrow> sk_buff \<Rightarrow> genl_info \<Rightarrow> brc_state \<Rightarrow> brc_state \<times> int"
where
  "brc_genl_dp_result clone_ok skb info st0 =
     (if attrs info BRC_GENL_A_ERR_CODE = None then (st0, - EINVAL)
      else
        let st1 = kcall Skb_clone st0 in
        if \<not> clone_ok then (st1, - ENOMEM)
        else
          let st2 = kcall Spin_lock_irqsave st1 in
          if brc_seq st2 = snd_seq info then
            let st3 = set_brc_seq (brc_seq st2 + 1) st2;
                st4 = (case brc_reply st3 of
                         None \<Rightarrow> st3
                       | Some old \<Rightarrow> kcall (Kfree_skb old) st3);
                st5 = set_brc_reply (Some skb) st4;
                st6 = complete st5
            in (kcall Spin_unlock_irqrestore st6, 0)
          else
            (kcall Spin_unlock_irqrestore (kcall (Kfree_skb skb) st2), - ESTALE))"

text \<open>
  How the generic-netlink layer delivers a \<open>BRC_GENL_C_DP_RESULT\<close> message
  (\<open>brc_genl_ops_dp_result\<close>, lines 443-449: \<open>.policy = brc_genl_policy\<close>,
  \<open>.doit = brc_genl_dp_result\<close>): it parses the attributes against the policy,
  returns the error if that fails, and otherwise calls the handler with the parsed
  table and the sequence number of the message header.
\<close>

definition genl_rcv_msg :: "sk_buff \<times> bool \<Rightarrow> brc_state \<Rightarrow> brc_state \<times> int" where
  "genl_rcv_msg ib st =
     (case nlmsg_parse (fst ib) brc_genl_policy of
        (err, tb) \<Rightarrow>
          if err < 0 then (st, err)
          else brc_genl_dp_result (snd ib) (fst ib)
                 \<lparr>snd_seq = nlmsg_seq (fst ib), attrs = tb\<rparr> st)"

text \<open>Module initialisation (\<open>brc_init\<close>, line 525): \<open>brc_seq = net_random()\<close>; the other
  variables have their static initial values.\<close>

definition brc_init :: "u32 \<Rightarrow> brc_state" where
  "brc_init r = \<lparr>brc_serial = False, brc_done = 0, brc_reply = None, brc_seq = r, klog = []\<rparr>"

subsection \<open>Sending a command and waiting for its reply\<close>

text \<open>\<open>BRC_TIMEOUT\<close> (lines 26-28): five seconds, in jiffies; \<open>HZ\<close> is the kernel's
  tick rate.\<close>

definition BRC_TIMEOUT :: "nat \<Rightarrow> nat" where
  "BRC_TIMEOUT HZ = HZ * 5"

text \<open>
  What the environment does during one call: the value \<open>genlmsg_multicast\<close> returns;
  the reply-class messages delivered while the caller waits, in order of arrival, each
  with its arrival time in jiffies after the wait began and with whether its clone can
  be allocated; and the messages delivered after the caller was woken but before it
  takes the spin lock to grab the reply. A message that arrives between the release of
  the spin lock and the send counts as arriving at time 0 of the wait (the send reads no
  shared variable); one that arrives before the spin lock is taken, or after the reply
  was grabbed, is an event of the history before or after the call.
\<close>

record call_env =
  mc_result :: int
  arrivals :: "(nat \<times> sk_buff \<times> bool) list"
  stragglers :: "(sk_buff \<times> bool) list"

text \<open>
  \<open>wait_for_completion_timeout\<close>: returns at once when the completion is already
  signalled, consuming one signal; otherwise the handler runs for each message that
  arrives before the timeout, until one signals; when none does, the wait times out.
  The second component is whether the wait was satisfied (a non-zero return).
\<close>

fun wait_for_completion_timeout ::
  "nat \<Rightarrow> (nat \<times> sk_buff \<times> bool) list \<Rightarrow> brc_state \<Rightarrow> brc_state \<times> bool"
where
  "wait_for_completion_timeout timeout [] st =
     (if brc_done st \<noteq> 0 then (st\<lparr>brc_done := brc_done st - 1\<rparr>, True) else (st, False))"
| "wait_for_completion_timeout timeout ((at, ib) # rest) st =
     (if brc_done st \<noteq> 0 then (st\<lparr>brc_done := brc_done st - 1\<rparr>, True)
      else if at < timeout
        then wait_for_completion_timeout timeout rest (fst (genl_rcv_msg ib st))
        else (st, False))"

fun deliver :: "(sk_buff \<times> bool) list \<Rightarrow> brc_state \<Rightarrow> brc_state" where
  "deliver [] st = st"
| "deliver (ib # rest) st = deliver rest (fst (genl_rcv_msg ib st))"

datatype 'a outcome = Fault | Return 'a

text \<open>\<open>brc_send_command\<close> (lines 459-508).\<close>

definition brc_send_command ::
  "nat \<Rightarrow> call_env \<Rightarrow> sk_buff \<Rightarrow> brc_state \<Rightarrow>
     brc_state \<times> (int + sk_buff \<times> nlattr_tab) outcome"
where
  "brc_send_command HZ env request0 st0 =
     (let st1 = mutex_lock st0;
          st2 = kcall Spin_lock_irqsave st1;
          st3 = set_brc_seq (brc_seq st2 + 1) st2;
          request = request0\<lparr>nlmsg_seq := brc_seq st3\<rparr>;
          st4 = INIT_COMPLETION st3;
          st5 = kcall Spin_unlock_irqrestore st4;
          st6 = kcall (Genlmsg_multicast request) st5;
          error = mc_result env
      in
        if error < 0 then (mutex_unlock st6, Return (Inl error))
        else
          case wait_for_completion_timeout (BRC_TIMEOUT HZ) (arrivals env)
                 (kcall (Wait_for_completion_timeout (BRC_TIMEOUT HZ)) st6) of
            (st7, False) \<Rightarrow> (mutex_unlock st7, Return (Inl (- ETIMEDOUT)))
          | (st7, True) \<Rightarrow>
              (let st8 = kcall Spin_lock_irqsave (deliver (stragglers env) st7);
                   reply = brc_reply st8;
                   st9 = set_brc_reply None st8;
                   st10 = kcall Spin_unlock_irqrestore st9;
                   st11 = mutex_unlock st10
               in
                 case reply of
                   None \<Rightarrow> (st11, Fault)
                 | Some r \<Rightarrow>
                     (case nlmsg_parse r brc_genl_policy of
                        (err, tb) \<Rightarrow>
                          ((if err \<noteq> 0 then kcall Warn_on st11 else st11),
                           Return (Inr (r, tb))))))"

text \<open>\<open>brc_send_simple_command\<close> (lines 65-78). The kernel is built so that signed
  negation wraps.\<close>

definition brc_send_simple_command ::
  "nat \<Rightarrow> call_env \<Rightarrow> sk_buff \<Rightarrow> brc_state \<Rightarrow> brc_state \<times> int outcome"
where
  "brc_send_simple_command HZ env request st0 =
     (case brc_send_command HZ env request st0 of
        (st1, Fault) \<Rightarrow> (st1, Fault)
      | (st1, Return (Inl e)) \<Rightarrow> (st1, Return e)
      | (st1, Return (Inr (reply, tb))) \<Rightarrow>
          (case nla_get_u32 (tb BRC_GENL_A_ERR_CODE) of
             None \<Rightarrow> (st1, Fault)
           | Some error \<Rightarrow> (kcall (Kfree_skb reply) st1, Return (sint (- error)))))"

subsection \<open>Histories\<close>

text \<open>
  The mutex serialises the callers, so a history of the module is a sequence of whole
  calls and of reply-class messages delivered between calls (those delivered during a
  call are part of the call's environment). A history ends where the kernel faults.
\<close>

datatype event = Inbound sk_buff bool | Call sk_buff call_env

fun run :: "nat \<Rightarrow> event list \<Rightarrow> brc_state \<Rightarrow> brc_state option" where
  "run HZ [] st = Some st"
| "run HZ (Inbound skb clone_ok # evs) st = run HZ evs (fst (genl_rcv_msg (skb, clone_ok) st))"
| "run HZ (Call request env # evs) st =
     (case brc_send_command HZ env request st of
        (st', Fault) \<Rightarrow> None
      | (st', Return _) \<Rightarrow> run HZ evs st')"

text \<open>The sends and the accepted replies recorded in a log.\<close>

fun seq_advances :: "kcall list \<Rightarrow> nat" where
  "seq_advances [] = 0"
| "seq_advances (Genlmsg_multicast _ # cs) = Suc (seq_advances cs)"
| "seq_advances (Complete # cs) = Suc (seq_advances cs)"
| "seq_advances (_ # cs) = seq_advances cs"

subsection \<open>The ioctl adapters\<close>

text \<open>
  What the environment decides during one ioctl: whether \<open>genlmsg_new\<close> returns a
  buffer, how many attributes the buffer has room for (the \<open>NLA_PUT\<close> macros jump to
  \<open>nla_put_failure\<close> when there is no room), the round trip, and how many bytes at the
  caller's buffer address can be written (\<open>copy_to_user\<close> stops at the first byte it
  cannot write and returns the number of bytes it did not copy).
\<close>

record ioctl_env =
  new_ok :: bool
  nla_room :: nat
  round_trip :: call_env
  uwritable :: nat

definition nla_put :: "nat \<Rightarrow> brc_attr \<Rightarrow> u8 list \<Rightarrow> sk_buff \<Rightarrow> sk_buff option" where
  "nla_put room t d skb =
     (if length (nlattrs skb) < room then Some (skb\<lparr>nlattrs := nlattrs skb @ [(t, d)]\<rparr>)
      else None)"

definition copy_to_user :: "nat \<Rightarrow> u8 list \<Rightarrow> nat \<Rightarrow> brc_state \<Rightarrow> brc_state \<times> nat" where
  "copy_to_user writable from n st =
     (kcall (Copy_to_user (take (min n writable) from)) st, n - min n writable)"

text \<open>\<open>brc_make_request\<close> (lines 45-63). A string attribute carries the name and its
  terminating NUL. The header is written with sequence number 0.\<close>

definition brc_make_request ::
  "ioctl_env \<Rightarrow> brc_cmd \<Rightarrow> u8 list option \<Rightarrow> u8 list option \<Rightarrow> brc_state \<Rightarrow>
     brc_state \<times> sk_buff option"
where
  "brc_make_request env op bridge port st0 =
     (let st1 = kcall Genlmsg_new st0 in
      if \<not> new_ok env then (st1, None)
      else
        let skb0 = \<lparr>nlmsg_seq = 0, genl_cmd = op, nlattrs = []\<rparr> in
        case (case bridge of
                None \<Rightarrow> Some skb0
              | Some b \<Rightarrow> nla_put (nla_room env) BRC_GENL_A_DP_NAME (b @ [0]) skb0) of
          None \<Rightarrow> (kcall (Kfree_skb skb0) st1, None)
        | Some skb1 \<Rightarrow>
            (case (case port of
                     None \<Rightarrow> Some skb1
                   | Some p \<Rightarrow> nla_put (nla_room env) BRC_GENL_A_PORT_NAME (p @ [0]) skb1) of
               None \<Rightarrow> (kcall (Kfree_skb skb1) st1, None)
             | Some skb2 \<Rightarrow> (st1, Some skb2)))"

text \<open>\<open>brc_get_indices\<close> (lines 97-140); \<open>sizeof(int)\<close> is 4. The bytes handed to the
  caller are the argument of \<open>Copy_to_user\<close> in the log.\<close>

definition brc_get_indices ::
  "nat \<Rightarrow> ioctl_env \<Rightarrow> brc_cmd \<Rightarrow> u8 list option \<Rightarrow> int \<Rightarrow> brc_state \<Rightarrow>
     brc_state \<times> int outcome"
where
  "brc_get_indices HZ env op br_name n st0 =
     (if n < 0 then (st0, Return (- EINVAL))
      else if n \<ge> 2048 then (st0, Return (- ENOMEM))
      else
        case brc_make_request env op br_name None st0 of
          (st1, None) \<Rightarrow> (st1, Return (- ENOMEM))
        | (st1, Some request) \<Rightarrow>
            (case brc_send_command HZ (round_trip env) request st1 of
               (st2, Fault) \<Rightarrow> (st2, Fault)
             | (st2, Return (Inl e)) \<Rightarrow> (st2, Return e)
             | (st2, Return (Inr (reply, tb))) \<Rightarrow>
                 (case nla_get_u32 (tb BRC_GENL_A_ERR_CODE) of
                    None \<Rightarrow> (st2, Fault)
                  | Some code \<Rightarrow>
                      if sint (- code) < 0 then (kcall (Kfree_skb reply) st2, Return (sint (- code)))
                      else
                        (case tb BRC_GENL_A_IFINDEXES of
                           None \<Rightarrow> (kcall (Kfree_skb reply) st2, Return (- EINVAL))
                         | Some indices \<Rightarrow>
                             if length indices mod 4 \<noteq> 0
                             then (kcall (Kfree_skb reply) st2, Return (- EINVAL))
                             else
                               let n' = min n (int (length indices div 4));
                                   (st3, uncopied) =
                                     copy_to_user (uwritable env) indices (nat n' * 4) st2;
                                   ret = (if uncopied \<noteq> 0 then - EFAULT else n')
                               in (kcall (Kfree_skb reply) st3, Return ret)))))"

definition brc_get_bridges :: "nat \<Rightarrow> ioctl_env \<Rightarrow> int \<Rightarrow> brc_state \<Rightarrow> brc_state \<times> int outcome" where
  "brc_get_bridges HZ env n st = brc_get_indices HZ env BRC_GENL_C_GET_BRIDGES None n st"

definition brc_get_port_list ::
  "nat \<Rightarrow> ioctl_env \<Rightarrow> u8 list \<Rightarrow> int \<Rightarrow> brc_state \<Rightarrow> brc_state \<times> int outcome"
where
  "brc_get_port_list HZ env dev_name num st0 =
     (case brc_get_indices HZ env BRC_GENL_C_GET_PORTS (Some dev_name) num (kcall Rtnl_unlock st0) of
        (st1, retval) \<Rightarrow> (kcall Rtnl_lock st1, retval))"

text \<open>
  \<open>struct __fdb_entry\<close> (linux/if_bridge.h) has 16 bytes; \<open>PAGE_SIZE\<close> depends on the
  machine and is an argument. \<open>NLA_PUT_U64\<close> stores eight bytes, least significant
  first.
\<close>

definition sizeof_fdb_entry :: nat where
  "sizeof_fdb_entry = 16"

definition u64_bytes :: "nat \<Rightarrow> u8 list" where
  "u64_bytes v = map (\<lambda>i. of_nat (v div 256 ^ i)) [0..<8]"

text \<open>\<open>brc_get_fdb_entries\<close> (lines 255-304). \<open>maxnum\<close> and \<open>offset\<close> are unsigned
  long; they are only compared and stored.\<close>

definition brc_get_fdb_entries ::
  "nat \<Rightarrow> nat \<Rightarrow> ioctl_env \<Rightarrow> u8 list \<Rightarrow> nat \<Rightarrow> nat \<Rightarrow> brc_state \<Rightarrow>
     brc_state \<times> int outcome"
where
  "brc_get_fdb_entries HZ PAGE_SIZE env dev_name maxnum0 offset st0 =
     (let maxnum = (if maxnum0 > PAGE_SIZE div sizeof_fdb_entry
                    then PAGE_SIZE div sizeof_fdb_entry else maxnum0)
      in
        case brc_make_request env BRC_GENL_C_FDB_QUERY (Some dev_name) None st0 of
          (st1, None) \<Rightarrow> (st1, Return (- ENOMEM))
        | (st1, Some request0) \<Rightarrow>
            case nla_put (nla_room env) BRC_GENL_A_FDB_COUNT (u64_bytes maxnum) request0 of
              None \<Rightarrow> (kcall (Kfree_skb request0) st1, Return (- ENOMEM))
            | Some request1 \<Rightarrow>
            case nla_put (nla_room env) BRC_GENL_A_FDB_SKIP (u64_bytes offset) request1 of
              None \<Rightarrow> (kcall (Kfree_skb request1) st1, Return (- ENOMEM))
            | Some request \<Rightarrow>
                case brc_send_command HZ (round_trip env) request (kcall Rtnl_unlock st1) of
                  (st2, Fault) \<Rightarrow> (st2, Fault)
                | (st2, Return (Inl e)) \<Rightarrow> (kcall Rtnl_lock st2, Return e)
                | (st2, Return (Inr (reply, tb))) \<Rightarrow>
                    (case nla_get_u32 (tb BRC_GENL_A_ERR_CODE) of
                       None \<Rightarrow> (st2, Fault)
                     | Some code \<Rightarrow>
                         if sint (- code) < 0
                         then (kcall Rtnl_lock (kcall (Kfree_skb reply) st2), Return (sint (- code)))
                         else
                           (case tb BRC_GENL_A_FDB_DATA of
                              None \<Rightarrow> (kcall Rtnl_lock (kcall (Kfree_skb reply) st2), Return (- EINVAL))
                            | Some data \<Rightarrow>
                                if length data mod sizeof_fdb_entry \<noteq> 0 \<or>
                                   length data div sizeof_fdb_entry > maxnum
                                then (kcall Rtnl_lock (kcall (Kfree_skb reply) st2), Return (- EINVAL))
                                else
                                  let (st3, uncopied) =
                                        copy_to_user (uwritable env) data (length data) st2;
                                      retval = (if uncopied \<noteq> 0 then - EFAULT
                                                else int (length data div sizeof_fdb_entry))
                                  in (kcall Rtnl_lock (kcall (Kfree_skb reply) st3), Return retval))))"

subsection \<open>Predicates and sample inputs used in the statements\<close>

text \<open>A reply-class message is well formed when it passes the policy and carries the
  error-code attribute.\<close>

definition well_formed_reply :: "sk_buff \<Rightarrow> bool" where
  "well_formed_reply skb =
     (fst (nlmsg_parse skb brc_genl_policy) = 0 \<and>
      snd (nlmsg_parse skb brc_genl_policy) BRC_GENL_A_ERR_CODE \<noteq> None)"

text \<open>A reply with sequence number \<open>s\<close> that reports error code 0 and nothing else.\<close>

definition ex_reply :: "u32 \<Rightarrow> sk_buff" where
  "ex_reply s = \<lparr>nlmsg_seq = s, genl_cmd = BRC_GENL_C_DP_RESULT,
                 nlattrs = [(BRC_GENL_A_ERR_CODE, [0, 0, 0, 0])]\<rparr>"

text \<open>A reply-class message without the error-code attribute.\<close>

definition ex_no_err_code :: "u32 \<Rightarrow> sk_buff" where
  "ex_no_err_code s = \<lparr>nlmsg_seq = s, genl_cmd = BRC_GENL_C_DP_RESULT,
                        nlattrs = [(BRC_GENL_A_IFINDEXES, [1, 0, 0, 0])]\<rparr>"

text \<open>A reply-class message whose error code has two bytes only.\<close>

definition ex_short_err_code :: "u32 \<Rightarrow> sk_buff" where
  "ex_short_err_code s = \<lparr>nlmsg_seq = s, genl_cmd = BRC_GENL_C_DP_RESULT,
                           nlattrs = [(BRC_GENL_A_ERR_CODE, [0, 0])]\<rparr>"

text \<open>The requests handed to the transport, as a log records them.\<close>

fun multicasts :: "kcall list \<Rightarrow> sk_buff list" where
  "multicasts [] = []"
| "multicasts (Genlmsg_multicast skb # cs) = skb # multicasts cs"
| "multicasts (_ # cs) = multicasts cs"

text \<open>A request to create the bridge "br0", as \<open>brc_make_request\<close> builds it.\<close>

definition ex_request :: sk_buff where
  "ex_request = \<lparr>nlmsg_seq = 0, genl_cmd = BRC_GENL_C_DP_ADD,
                  nlattrs = [(BRC_GENL_A_DP_NAME, [98, 114, 48, 0])]\<rparr>"

text \<open>Environments of a call: the request is sent and nothing comes back; the
  transport refuses the request (\<open>-ESRCH\<close>) although a reply is on its way; the request
  is sent and only unacceptable messages arrive within the five seconds (a stale one,
  one without error code, one whose clone cannot be allocated), the matching one
  arriving too late.\<close>

definition ex_silence :: call_env where
  "ex_silence = \<lparr>mc_result = 0, arrivals = [], stragglers = []\<rparr>"

definition ex_no_peer :: call_env where
  "ex_no_peer = \<lparr>mc_result = - 3, arrivals = [(1, ex_reply 8, True)], stragglers = []\<rparr>"

definition ex_busy :: call_env where
  "ex_busy = \<lparr>mc_result = 0,
               arrivals = [(3, ex_reply 6, True), (4, ex_no_err_code 8, True),
                           (5, ex_reply 8, False), (600, ex_reply 8, True)],
               stragglers = []\<rparr>"

text \<open>The state after a call from \<open>brc_init 7\<close> timed out and its reply arrived late.\<close>

definition ex_late_state :: brc_state where
  "ex_late_state =
     \<lparr>brc_serial = False, brc_done = 1, brc_reply = Some (ex_reply 8), brc_seq = 9,
      klog = [Mutex_lock, Spin_lock_irqsave, Set_brc_seq 8, Init_completion,
              Spin_unlock_irqrestore, Genlmsg_multicast (ex_request\<lparr>nlmsg_seq := 8\<rparr>),
              Wait_for_completion_timeout 500, Mutex_unlock,
              Skb_clone, Spin_lock_irqsave, Set_brc_seq 9, Set_brc_reply (Some (ex_reply 8)),
              Complete, Spin_unlock_irqrestore]\<rparr>"

text \<open>The replies written to \<open>brc_reply\<close>, as a log records them.\<close>

fun stored_replies :: "kcall list \<Rightarrow> sk_buff list" where
  "stored_replies [] = []"
| "stored_replies (Set_brc_reply (Some skb) # cs) = skb # stored_replies cs"
| "stored_replies (_ # cs) = stored_replies cs"

text \<open>The invariant of the slot: what it holds, and everything that was ever stored in
  it, is a well-formed reply.\<close>

definition slot_valid :: "brc_state \<Rightarrow> bool" where
  "slot_valid st =
     ((case brc_reply st of None \<Rightarrow> True | Some skb \<Rightarrow> well_formed_reply skb) \<and>
      list_all well_formed_reply (stored_replies (klog st)))"

text \<open>Between two states, the log has only grown and \<open>brc_seq\<close> has advanced by the
  number of sends and accepted replies logged in between (modulo \<open>2 ^ 32\<close>: the
  arithmetic is that of \<open>u32\<close>).\<close>

definition seq_follows_log :: "brc_state \<Rightarrow> brc_state \<Rightarrow> bool" where
  "seq_follows_log st st' =
     (prefix (klog st) (klog st') \<and>
      brc_seq st' = brc_seq st + of_nat (seq_advances (drop (length (klog st)) (klog st'))))"

text \<open>The request is sent and the reply with sequence number \<open>s\<close> arrives after three
  jiffies.\<close>

definition ex_answered :: "u32 \<Rightarrow> call_env" where
  "ex_answered s = \<lparr>mc_result = 0, arrivals = [(3, ex_reply s, True)], stragglers = []\<rparr>"

lemmas ex_defs = ex_reply_def ex_no_err_code_def ex_short_err_code_def ex_request_def
  ex_silence_def ex_no_peer_def ex_busy_def ex_late_state_def ex_answered_def

lemmas eval_defs = genl_rcv_msg_def nlmsg_parse_def validate_nla_def brc_genl_dp_result_def
  brc_send_command_def prim_defs brc_init_def BRC_TIMEOUT_def errno_defs Let_def

text \<open>The byte strings handed to \<open>copy_to_user\<close>, as a log records them.\<close>

fun user_copies :: "kcall list \<Rightarrow> u8 list list" where
  "user_copies [] = []"
| "user_copies (Copy_to_user bytes # cs) = bytes # user_copies cs"
| "user_copies (_ # cs) = user_copies cs"

text \<open>Ten interface indices, 1 to 10, four bytes each; a reply that carries them with the
  given error code; a reply that carries \<open>len\<close> bytes of forwarding-table data with the
  given error code.\<close>

definition ex_indices :: "u8 list" where
  "ex_indices = [1, 0, 0, 0, 2, 0, 0, 0, 3, 0, 0, 0, 4, 0, 0, 0, 5, 0, 0, 0,
                 6, 0, 0, 0, 7, 0, 0, 0, 8, 0, 0, 0, 9, 0, 0, 0, 10, 0, 0, 0]"

definition ex_indices_reply :: "u32 \<Rightarrow> u8 \<Rightarrow> sk_buff" where
  "ex_indices_reply s code =
     \<lparr>nlmsg_seq = s, genl_cmd = BRC_GENL_C_DP_RESULT,
      nlattrs = [(BRC_GENL_A_ERR_CODE, [code, 0, 0, 0]),
                 (BRC_GENL_A_IFINDEXES,
                  [1, 0, 0, 0, 2, 0, 0, 0, 3, 0, 0, 0, 4, 0, 0, 0, 5, 0, 0, 0,
                   6, 0, 0, 0, 7, 0, 0, 0, 8, 0, 0, 0, 9, 0, 0, 0, 10, 0, 0, 0])]\<rparr>"

definition ex_fdb_reply :: "u32 \<Rightarrow> u8 \<Rightarrow> nat \<Rightarrow> sk_buff" where
  "ex_fdb_reply s code len =
     \<lparr>nlmsg_seq = s, genl_cmd = BRC_GENL_C_DP_RESULT,
      nlattrs = [(BRC_GENL_A_ERR_CODE, [code, 0, 0, 0]),
                 (BRC_GENL_A_FDB_DATA, replicate len 170)]\<rparr>"

text \<open>An ioctl during which every allocation succeeds, the given reply arrives after
  three jiffies and the caller's buffer has \<open>writable\<close> writable bytes.\<close>

definition ex_ioctl :: "sk_buff \<Rightarrow> nat \<Rightarrow> ioctl_env" where
  "ex_ioctl reply writable =
     \<lparr>new_ok = True, nla_room = 3,
      round_trip = \<lparr>mc_result = 0, arrivals = [(3, reply, True)], stragglers = []\<rparr>,
      uwritable = writable\<rparr>"

text \<open>The requests the adapters build for the bridge "br0": an enumeration, and a
  forwarding-table query for at most 256 entries from offset 0 with its first \<open>n\<close>
  numeric attributes in place.\<close>

definition ex_query :: "brc_cmd \<Rightarrow> sk_buff" where
  "ex_query op = \<lparr>nlmsg_seq = 0, genl_cmd = op, nlattrs = [(BRC_GENL_A_DP_NAME, [98, 114, 48, 0])]\<rparr>"

definition ex_fdb_query :: "nat \<Rightarrow> sk_buff" where
  "ex_fdb_query n =
     \<lparr>nlmsg_seq = 0, genl_cmd = BRC_GENL_C_FDB_QUERY,
      nlattrs = [(BRC_GENL_A_DP_NAME, [98, 114, 48, 0])] @
                (if 0 < n then [(BRC_GENL_A_FDB_COUNT, [0, 1, 0, 0, 0, 0, 0, 0])] else []) @
                (if 1 < n then [(BRC_GENL_A_FDB_SKIP, [0, 0, 0, 0, 0, 0, 0, 0])] else [])\<rparr>"

lemmas adapter_ex_defs = ex_defs ex_indices_reply_def ex_ioctl_def ex_fdb_reply_def

lemmas adapter_eval_defs = eval_defs brc_get_indices_def brc_get_fdb_entries_def brc_make_request_def
  nla_put_def copy_to_user_def sizeof_fdb_entry_def u64_bytes_def

section \<open>Properties\<close>

subsection \<open>Parsing\<close>

lemma validate_nla_le0: "validate_nla policy t d \<le> 0"
  by (simp add: validate_nla_def errno_defs split: nla_type.split)

lemma nla_parse_le0: "fst (nla_parse policy as tb) \<le> 0"
  by (induction as arbitrary: tb) (auto simp: Let_def validate_nla_le0)

lemma nlmsg_parse_le0: "fst (nlmsg_parse skb policy) \<le> 0"
  by (simp add: nlmsg_parse_def nla_parse_le0)

lemma wf_ex_reply: "well_formed_reply (ex_reply s)"
  by (simp add: well_formed_reply_def ex_reply_def nlmsg_parse_def validate_nla_def)

lemma nlmsg_seq_ex_reply: "nlmsg_seq (ex_reply s) = s"
  by (simp add: ex_reply_def)

subsection \<open>The inbound handler, branch by branch\<close>

lemma dp_result_no_err_code:
  "attrs info BRC_GENL_A_ERR_CODE = None \<Longrightarrow>
   brc_genl_dp_result clone_ok skb info st = (st, - EINVAL)"
  by (simp add: brc_genl_dp_result_def)

lemma dp_result_clone_fails:
  "attrs info BRC_GENL_A_ERR_CODE \<noteq> None \<Longrightarrow>
   brc_genl_dp_result False skb info st = (st\<lparr>klog := klog st @ [Skb_clone]\<rparr>, - ENOMEM)"
  by (auto simp: brc_genl_dp_result_def kcall_def)

lemma dp_result_stale:
  "attrs info BRC_GENL_A_ERR_CODE \<noteq> None \<Longrightarrow> brc_seq st \<noteq> snd_seq info \<Longrightarrow>
   brc_genl_dp_result True skb info st =
     (st\<lparr>klog := klog st @ [Skb_clone, Spin_lock_irqsave, Kfree_skb skb, Spin_unlock_irqrestore]\<rparr>,
      - ESTALE)"
  by (auto simp: brc_genl_dp_result_def kcall_def)

lemma dp_result_accept:
  "attrs info BRC_GENL_A_ERR_CODE \<noteq> None \<Longrightarrow> brc_seq st = snd_seq info \<Longrightarrow>
   brc_genl_dp_result True skb info st =
     (st\<lparr>brc_seq := brc_seq st + 1, brc_reply := Some skb, brc_done := brc_done st + 1,
         klog := klog st @ [Skb_clone, Spin_lock_irqsave, Set_brc_seq (brc_seq st + 1)] @
                 (case brc_reply st of None \<Rightarrow> [] | Some old \<Rightarrow> [Kfree_skb old]) @
                 [Set_brc_reply (Some skb), Complete, Spin_unlock_irqrestore]\<rparr>, 0)"
  by (auto simp: brc_genl_dp_result_def prim_defs Let_def split: option.split)

lemma genl_rcv_msg_well_formed:
  "well_formed_reply skb \<Longrightarrow>
   genl_rcv_msg (skb, clone_ok) st =
     brc_genl_dp_result clone_ok skb
       \<lparr>snd_seq = nlmsg_seq skb, attrs = snd (nlmsg_parse skb brc_genl_policy)\<rparr> st"
  by (cases "nlmsg_parse skb brc_genl_policy") (simp add: genl_rcv_msg_def well_formed_reply_def)

lemma genl_rcv_msg_malformed:
  "\<not> well_formed_reply skb \<Longrightarrow>
   fst (genl_rcv_msg (skb, clone_ok) st) = st \<and> snd (genl_rcv_msg (skb, clone_ok) st) < 0"
  using nlmsg_parse_le0 [of skb brc_genl_policy]
  by (auto simp: genl_rcv_msg_def well_formed_reply_def dp_result_no_err_code errno_defs
           split: prod.split)

subsection \<open>Claims about the inbound handler\<close>

text \<open>
  C1 (as amended). The claim says that every well-formed reply is accepted exactly when
  its sequence number equals \<open>brc_seq\<close>. The handler first clones the message and gives
  up with \<open>-ENOMEM\<close> when the clone cannot be allocated, so the statement holds for the
  messages whose clone succeeds:

  for every well-formed reply whose clone can be allocated, the handler returns 0
  (accepted) if and only if the sequence number of the message equals \<open>brc_seq\<close> at
  that moment; on acceptance it adds one to \<open>brc_seq\<close>, frees the previous unclaimed
  reply if there is one, stores the new message in \<open>brc_reply\<close> and signals the
  completion, all between taking and releasing the spin lock; on a mismatch it frees
  the message and returns \<open>-ESTALE\<close>, leaving \<open>brc_seq\<close>, \<open>brc_reply\<close> and the
  completion as they were. When the clone cannot be allocated the handler returns
  \<open>-ENOMEM\<close> and leaves the three as they were.
\<close>

theorem dp_result_accepts_iff_seq_matches:
  assumes "well_formed_reply skb"
  shows "(snd (genl_rcv_msg (skb, True) st) = 0) = (nlmsg_seq skb = brc_seq st) \<and>
    (nlmsg_seq skb = brc_seq st \<longrightarrow>
       genl_rcv_msg (skb, True) st =
         (st\<lparr>brc_seq := brc_seq st + 1, brc_reply := Some skb, brc_done := brc_done st + 1,
             klog := klog st @ [Skb_clone, Spin_lock_irqsave, Set_brc_seq (brc_seq st + 1)] @
                     (case brc_reply st of None \<Rightarrow> [] | Some old \<Rightarrow> [Kfree_skb old]) @
                     [Set_brc_reply (Some skb), Complete, Spin_unlock_irqrestore]\<rparr>, 0)) \<and>
    (nlmsg_seq skb \<noteq> brc_seq st \<longrightarrow>
       genl_rcv_msg (skb, True) st =
         (st\<lparr>klog := klog st @
                 [Skb_clone, Spin_lock_irqsave, Kfree_skb skb, Spin_unlock_irqrestore]\<rparr>,
          - ESTALE)) \<and>
    genl_rcv_msg (skb, False) st = (st\<lparr>klog := klog st @ [Skb_clone]\<rparr>, - ENOMEM)"
proof -
  let ?info = "\<lparr>snd_seq = nlmsg_seq skb, attrs = snd (nlmsg_parse skb brc_genl_policy)\<rparr>"
  have present: "attrs ?info BRC_GENL_A_ERR_CODE \<noteq> None"
    using assms by (simp add: well_formed_reply_def)
  have rcv: "genl_rcv_msg (skb, c) st = brc_genl_dp_result c skb ?info st" for c
    using assms by (rule genl_rcv_msg_well_formed)
  show ?thesis
  proof (cases "nlmsg_seq skb = brc_seq st")
    case True
    then have "brc_seq st = snd_seq ?info" by simp
    from dp_result_accept [OF present this] dp_result_clone_fails [OF present] True
    show ?thesis by (simp add: rcv)
  next
    case False
    then have "brc_seq st \<noteq> snd_seq ?info" by simp
    from dp_result_stale [OF present this] dp_result_clone_fails [OF present] False
    show ?thesis by (simp add: rcv errno_defs)
  qed
qed

theorem dp_result_accepts_iff_seq_matches_witness:
  "well_formed_reply (ex_reply 7) \<and>
   genl_rcv_msg (ex_reply 7, True) (brc_init 7) =
     (\<lparr>brc_serial = False, brc_done = 1, brc_reply = Some (ex_reply 7), brc_seq = 8,
       klog = [Skb_clone, Spin_lock_irqsave, Set_brc_seq 8, Set_brc_reply (Some (ex_reply 7)),
               Complete, Spin_unlock_irqrestore]\<rparr>, 0) \<and>
   snd (genl_rcv_msg (ex_reply 6, True) (brc_init 7)) = - ESTALE"
  using dp_result_accepts_iff_seq_matches [OF wf_ex_reply, of 7 "brc_init 7"]
        dp_result_accepts_iff_seq_matches [OF wf_ex_reply, of 6 "brc_init 7"]
  by (simp add: wf_ex_reply brc_init_def nlmsg_seq_ex_reply)

text \<open>
  The claim as stated fails where the clone cannot be allocated: the sequence number of
  the well-formed message equals \<open>brc_seq\<close>, and the message is not accepted.
\<close>

theorem dp_result_clone_failure_counterexample:
  "well_formed_reply (ex_reply 7) \<and> nlmsg_seq (ex_reply 7) = brc_seq (brc_init 7) \<and>
   genl_rcv_msg (ex_reply 7, False) (brc_init 7) =
     (\<lparr>brc_serial = False, brc_done = 0, brc_reply = None, brc_seq = 7, klog = [Skb_clone]\<rparr>,
      - ENOMEM)"
  by (simp add: well_formed_reply_def genl_rcv_msg_def nlmsg_parse_def validate_nla_def
        brc_genl_dp_result_def prim_defs brc_init_def ex_reply_def)

text \<open>
  C8. A reply-class message that is malformed with respect to \<open>brc_genl_policy\<close>, or
  that lacks the error-code attribute, is rejected with a negative return value and the
  state is left exactly as it was: \<open>brc_seq\<close>, \<open>brc_reply\<close> and the completion are not
  touched, and no kernel primitive is called. When the policy accepts the message and
  only the error code is missing, the handler itself returns \<open>-EINVAL\<close>.
\<close>

theorem malformed_reply_rejected_unchanged:
  assumes "\<not> well_formed_reply skb"
  shows "fst (genl_rcv_msg (skb, clone_ok) st) = st \<and>
    snd (genl_rcv_msg (skb, clone_ok) st) < 0 \<and>
    (fst (nlmsg_parse skb brc_genl_policy) = 0 \<longrightarrow>
       brc_genl_dp_result clone_ok skb
         \<lparr>snd_seq = nlmsg_seq skb, attrs = snd (nlmsg_parse skb brc_genl_policy)\<rparr> st =
       (st, - EINVAL))"
  using assms genl_rcv_msg_malformed [OF assms, of clone_ok st]
  by (simp add: well_formed_reply_def dp_result_no_err_code)

theorem malformed_reply_rejected_unchanged_witness:
  "\<not> well_formed_reply (ex_no_err_code 7) \<and>
   genl_rcv_msg (ex_no_err_code 7, True) (brc_init 7) = (brc_init 7, - EINVAL) \<and>
   \<not> well_formed_reply (ex_short_err_code 7) \<and>
   genl_rcv_msg (ex_short_err_code 7, True) (brc_init 7) = (brc_init 7, - ERANGE)"
  using malformed_reply_rejected_unchanged [of "ex_no_err_code 7" True "brc_init 7"]
  by (simp add: well_formed_reply_def genl_rcv_msg_def nlmsg_parse_def validate_nla_def
        brc_genl_dp_result_def ex_no_err_code_def ex_short_err_code_def errno_defs)

subsection \<open>Sending a command: helper lemmas\<close>

lemma multicasts_append: "multicasts (xs @ ys) = multicasts xs @ multicasts ys"
  by (induction xs rule: multicasts.induct) simp_all

text \<open>The handler only appends to the log, never multicasts and leaves the mutex alone.\<close>

lemma dp_result_klog:
  "prefix (klog st) (klog (fst (brc_genl_dp_result c skb info st))) \<and>
   multicasts (klog (fst (brc_genl_dp_result c skb info st))) = multicasts (klog st) \<and>
   brc_serial (fst (brc_genl_dp_result c skb info st)) = brc_serial st"
  by (simp add: brc_genl_dp_result_def prim_defs Let_def multicasts_append split: option.split)

lemma genl_rcv_msg_klog:
  "prefix (klog st) (klog (fst (genl_rcv_msg ib st))) \<and>
   multicasts (klog (fst (genl_rcv_msg ib st))) = multicasts (klog st) \<and>
   brc_serial (fst (genl_rcv_msg ib st)) = brc_serial st"
  using dp_result_klog by (simp add: genl_rcv_msg_def split: prod.split)

lemma wait_klog:
  "prefix (klog st) (klog (fst (wait_for_completion_timeout t evs st))) \<and>
   multicasts (klog (fst (wait_for_completion_timeout t evs st))) = multicasts (klog st) \<and>
   brc_serial (fst (wait_for_completion_timeout t evs st)) = brc_serial st"
proof (induction evs arbitrary: st)
  case Nil
  show ?case by simp
next
  case (Cons ev evs)
  obtain at ib where ev: "ev = (at, ib)" by (cases ev)
  from Cons [of "fst (genl_rcv_msg ib st)"] genl_rcv_msg_klog [of st ib]
  show ?case by (auto simp: ev intro: prefix_order.trans)
qed

lemma deliver_klog:
  "prefix (klog st) (klog (deliver ibs st)) \<and>
   multicasts (klog (deliver ibs st)) = multicasts (klog st) \<and>
   brc_serial (deliver ibs st) = brc_serial st"
proof (induction ibs arbitrary: st)
  case Nil
  show ?case by simp
next
  case (Cons ib ibs)
  from Cons [of "fst (genl_rcv_msg ib st)"] genl_rcv_msg_klog [of st ib]
  show ?case by (auto intro: prefix_order.trans)
qed

text \<open>A message that is not acceptable changes nothing but the log.\<close>

lemma genl_rcv_msg_not_accepted:
  assumes "\<not> (well_formed_reply skb \<and> c \<and> nlmsg_seq skb = brc_seq st)"
  shows "brc_seq (fst (genl_rcv_msg (skb, c) st)) = brc_seq st \<and>
         brc_reply (fst (genl_rcv_msg (skb, c) st)) = brc_reply st \<and>
         brc_done (fst (genl_rcv_msg (skb, c) st)) = brc_done st"
proof (cases "well_formed_reply skb")
  case False
  then show ?thesis by (simp add: genl_rcv_msg_malformed)
next
  case True
  let ?info = "\<lparr>snd_seq = nlmsg_seq skb, attrs = snd (nlmsg_parse skb brc_genl_policy)\<rparr>"
  have present: "attrs ?info BRC_GENL_A_ERR_CODE \<noteq> None"
    using True by (simp add: well_formed_reply_def)
  show ?thesis
  proof (cases c)
    case False
    with dp_result_clone_fails [OF present] show ?thesis
      by (simp add: genl_rcv_msg_well_formed [OF True])
  next
    case c: True
    with assms True have "brc_seq st \<noteq> snd_seq ?info" by auto
    from dp_result_stale [OF present this] c show ?thesis
      by (simp add: genl_rcv_msg_well_formed [OF True])
  qed
qed

lemma wait_times_out:
  assumes "brc_done st = 0"
    and "\<forall>(at, skb, c) \<in> set evs.
           at < t \<longrightarrow> \<not> (well_formed_reply skb \<and> c \<and> nlmsg_seq skb = brc_seq st)"
  shows "snd (wait_for_completion_timeout t evs st) = False \<and>
         brc_seq (fst (wait_for_completion_timeout t evs st)) = brc_seq st \<and>
         brc_reply (fst (wait_for_completion_timeout t evs st)) = brc_reply st \<and>
         brc_done (fst (wait_for_completion_timeout t evs st)) = 0"
  using assms
proof (induction evs arbitrary: st)
  case Nil
  then show ?case by simp
next
  case (Cons ev evs)
  obtain at skb c where ev: "ev = (at, skb, c)" by (cases ev)
  show ?case
  proof (cases "at < t")
    case False
    with Cons.prems show ?thesis by (simp add: ev)
  next
    case True
    with Cons.prems have na: "\<not> (well_formed_reply skb \<and> c \<and> nlmsg_seq skb = brc_seq st)"
      by (simp add: ev)
    let ?st = "fst (genl_rcv_msg (skb, c) st)"
    note same = genl_rcv_msg_not_accepted [OF na]
    have "brc_done ?st = 0" using same Cons.prems(1) by simp
    moreover have "\<forall>(at, skb, c) \<in> set evs.
           at < t \<longrightarrow> \<not> (well_formed_reply skb \<and> c \<and> nlmsg_seq skb = brc_seq ?st)"
      using Cons.prems(2) same by simp
    ultimately have "snd (wait_for_completion_timeout t evs ?st) = False \<and>
         brc_seq (fst (wait_for_completion_timeout t evs ?st)) = brc_seq ?st \<and>
         brc_reply (fst (wait_for_completion_timeout t evs ?st)) = brc_reply ?st \<and>
         brc_done (fst (wait_for_completion_timeout t evs ?st)) = 0"
      by (rule Cons.IH)
    with same True Cons.prems(1) show ?thesis by (simp add: ev)
  qed
qed

text \<open>The state in which the request is handed to the transport.\<close>

lemma prepare_state:
  "kcall (Genlmsg_multicast rq) (kcall Spin_unlock_irqrestore (INIT_COMPLETION
     (set_brc_seq v (kcall Spin_lock_irqsave (mutex_lock st))))) =
   st\<lparr>brc_serial := True, brc_seq := v, brc_done := 0,
      klog := klog st @ [Mutex_lock, Spin_lock_irqsave, Set_brc_seq v,
                Init_completion, Spin_unlock_irqrestore, Genlmsg_multicast rq]\<rparr>"
  by (simp add: prim_defs)

lemma prepare_seq:
  "brc_seq (kcall c (mutex_lock st)) = brc_seq st" "brc_seq (set_brc_seq v st) = v"
  by (simp_all add: prim_defs)

lemma send_command_unfold:
  "brc_send_command HZ env request st =
     (let st6 = st\<lparr>brc_serial := True, brc_seq := brc_seq st + 1, brc_done := 0,
                   klog := klog st @ [Mutex_lock, Spin_lock_irqsave, Set_brc_seq (brc_seq st + 1),
                     Init_completion, Spin_unlock_irqrestore,
                     Genlmsg_multicast (request\<lparr>nlmsg_seq := brc_seq st + 1\<rparr>)]\<rparr>
      in
        if mc_result env < 0 then (mutex_unlock st6, Return (Inl (mc_result env)))
        else
          case wait_for_completion_timeout (BRC_TIMEOUT HZ) (arrivals env)
                 (kcall (Wait_for_completion_timeout (BRC_TIMEOUT HZ)) st6) of
            (st7, False) \<Rightarrow> (mutex_unlock st7, Return (Inl (- ETIMEDOUT)))
          | (st7, True) \<Rightarrow>
              (let st8 = kcall Spin_lock_irqsave (deliver (stragglers env) st7);
                   reply = brc_reply st8;
                   st9 = set_brc_reply None st8;
                   st10 = kcall Spin_unlock_irqrestore st9;
                   st11 = mutex_unlock st10
               in
                 case reply of
                   None \<Rightarrow> (st11, Fault)
                 | Some r \<Rightarrow>
                     (case nlmsg_parse r brc_genl_policy of
                        (err, tb) \<Rightarrow>
                          ((if err \<noteq> 0 then kcall Warn_on st11 else st11),
                           Return (Inr (r, tb))))))"
  unfolding brc_send_command_def Let_def
  by (simp only: prepare_seq prepare_state)

lemma send_command_transport_fails:
  assumes "mc_result env < 0"
  shows "brc_send_command HZ env request st =
     (st\<lparr>brc_serial := False, brc_seq := brc_seq st + 1, brc_done := 0,
         klog := klog st @ [Mutex_lock, Spin_lock_irqsave, Set_brc_seq (brc_seq st + 1),
                   Init_completion, Spin_unlock_irqrestore,
                   Genlmsg_multicast (request\<lparr>nlmsg_seq := brc_seq st + 1\<rparr>), Mutex_unlock]\<rparr>,
      Return (Inl (mc_result env)))"
  using assms by (simp add: send_command_unfold mutex_unlock_def kcall_def)


lemma prim_klog:
  "klog (kcall c st) = klog st @ [c]"
  "klog (mutex_unlock st) = klog st @ [Mutex_unlock]"
  "klog (set_brc_reply v st) = klog st @ [Set_brc_reply v]"
  by (simp_all add: prim_defs)

lemma prim_fields:
  "brc_seq (kcall c st) = brc_seq st" "brc_done (kcall c st) = brc_done st"
  "brc_reply (kcall c st) = brc_reply st" "brc_serial (kcall c st) = brc_serial st"
  "brc_seq (mutex_unlock st) = brc_seq st" "brc_done (mutex_unlock st) = brc_done st"
  "brc_reply (mutex_unlock st) = brc_reply st" "brc_serial (mutex_unlock st) = False"
  "brc_seq (set_brc_reply v st) = brc_seq st" "brc_done (set_brc_reply v st) = brc_done st"
  "brc_reply (set_brc_reply v st) = v" "brc_serial (set_brc_reply v st) = brc_serial st"
  by (simp_all add: prim_defs)

lemma send_command_klog_prefix:
  "prefix (klog st @ [Mutex_lock, Spin_lock_irqsave, Set_brc_seq (brc_seq st + 1),
             Init_completion, Spin_unlock_irqrestore,
             Genlmsg_multicast (request\<lparr>nlmsg_seq := brc_seq st + 1\<rparr>)])
          (klog (fst (brc_send_command HZ env request st)))"
proof -
  let ?st6 = "st\<lparr>brc_serial := True, brc_seq := brc_seq st + 1, brc_done := 0,
                   klog := klog st @ [Mutex_lock, Spin_lock_irqsave, Set_brc_seq (brc_seq st + 1),
                     Init_completion, Spin_unlock_irqrestore,
                     Genlmsg_multicast (request\<lparr>nlmsg_seq := brc_seq st + 1\<rparr>)]\<rparr>"
  let ?w = "wait_for_completion_timeout (BRC_TIMEOUT HZ) (arrivals env)
              (kcall (Wait_for_completion_timeout (BRC_TIMEOUT HZ)) ?st6)"
  have "prefix (klog (kcall (Wait_for_completion_timeout (BRC_TIMEOUT HZ)) ?st6)) (klog (fst ?w))"
    using wait_klog [of "kcall (Wait_for_completion_timeout (BRC_TIMEOUT HZ)) ?st6"
            "BRC_TIMEOUT HZ" "arrivals env"]
    by blast
  then have "prefix (klog ?st6 @ [Wait_for_completion_timeout (BRC_TIMEOUT HZ)]) (klog (fst ?w))"
    by (simp only: prim_klog)
  then have w: "prefix (klog ?st6) (klog (fst ?w))"
    by (rule append_prefixD)
  have d: "prefix (klog ?st6) (klog (deliver (stragglers env) (fst ?w)))"
    using w deliver_klog [of "fst ?w" "stragglers env"] by (auto intro: prefix_order.trans)
  have "prefix (klog ?st6) (klog (fst (brc_send_command HZ env request st)))"
    using w d
    by (cases ?w)
       (auto simp: send_command_unfold Let_def prim_klog prefix_def
             split: bool.split option.split prod.split)
  then show ?thesis by simp
qed

subsection \<open>Claims about sending a command\<close>

text \<open>
  C3 (as amended). The claim says that the call also clears stale contents of
  \<open>brc_reply\<close> before the send. \<open>brc_send_command\<close> has no such step: between
  \<open>mutex_lock\<close> and \<open>genlmsg_multicast\<close> it writes \<open>brc_seq\<close> and resets the completion
  and nothing else; an unclaimed reply is freed by the handler when the next reply is
  accepted. What holds is:

  for every call, before the request is handed to the transport and between taking and
  releasing the spin lock, the call adds one to \<open>brc_seq\<close>, stamps the request with the
  new value and resets the completion; it does not write \<open>brc_reply\<close>, so whatever the
  slot held before the call is still there when the request is sent (when the transport
  refuses the request the call ends there, with the slot as it was before the call).
\<close>

theorem send_command_prepares_before_send:
  "prefix (klog st @ [Mutex_lock, Spin_lock_irqsave, Set_brc_seq (brc_seq st + 1),
             Init_completion, Spin_unlock_irqrestore,
             Genlmsg_multicast (request\<lparr>nlmsg_seq := brc_seq st + 1\<rparr>)])
          (klog (fst (brc_send_command HZ env request st))) \<and>
   (mc_result env < 0 \<longrightarrow>
      brc_seq (fst (brc_send_command HZ env request st)) = brc_seq st + 1 \<and>
      brc_done (fst (brc_send_command HZ env request st)) = 0 \<and>
      brc_reply (fst (brc_send_command HZ env request st)) = brc_reply st)"
  using send_command_klog_prefix [of st request HZ env]
  by (simp add: send_command_transport_fails)

theorem send_command_prepares_before_send_witness:
  "mc_result ex_no_peer < 0 \<and>
   klog (fst (brc_send_command 100 ex_no_peer ex_request ex_late_state)) =
     klog ex_late_state @ [Mutex_lock, Spin_lock_irqsave, Set_brc_seq 10, Init_completion,
       Spin_unlock_irqrestore, Genlmsg_multicast (ex_request\<lparr>nlmsg_seq := 10\<rparr>), Mutex_unlock] \<and>
   brc_seq (fst (brc_send_command 100 ex_no_peer ex_request ex_late_state)) = 10 \<and>
   brc_done (fst (brc_send_command 100 ex_no_peer ex_request ex_late_state)) = 0 \<and>
   brc_reply (fst (brc_send_command 100 ex_no_peer ex_request ex_late_state)) = Some (ex_reply 8)"
  using send_command_prepares_before_send [of ex_late_state ex_request 100 ex_no_peer]
  by (simp add: ex_defs eval_defs)

text \<open>
  The claim as stated fails after a timed-out call whose reply arrived late: the late
  reply sits in \<open>brc_reply\<close>, the next call sends its request without clearing it, and
  it is still there when that call returns.
\<close>

theorem send_keeps_stale_reply_counterexample:
  "run 100 [Call ex_request ex_silence, Inbound (ex_reply 8) True] (brc_init 7) = Some ex_late_state \<and>
   brc_reply ex_late_state = Some (ex_reply 8) \<and>
   brc_send_command 100 ex_no_peer ex_request ex_late_state =
     (ex_late_state\<lparr>brc_seq := 10, brc_done := 0,
        klog := klog ex_late_state @
          [Mutex_lock, Spin_lock_irqsave, Set_brc_seq 10, Init_completion,
           Spin_unlock_irqrestore, Genlmsg_multicast (ex_request\<lparr>nlmsg_seq := 10\<rparr>),
           Mutex_unlock]\<rparr>, Return (Inl (- 3))) \<and>
   brc_reply (fst (brc_send_command 100 ex_no_peer ex_request ex_late_state)) = Some (ex_reply 8)"
  by (simp add: ex_defs eval_defs)

text \<open>
  C4. When the transport has taken the request and no acceptable reply for the stamped
  sequence number arrives within \<open>BRC_TIMEOUT\<close> (five seconds, \<open>5 * HZ\<close> jiffies), the
  call returns \<open>-ETIMEDOUT\<close>. The round is abandoned: the request was multicast once
  and never again, the mutex is released, \<open>brc_seq\<close> stays at the stamped value and the
  slot is as it was.
\<close>

theorem send_command_times_out:
  assumes sent: "0 \<le> mc_result env"
    and none: "\<forall>(at, skb, c) \<in> set (arrivals env).
       at < BRC_TIMEOUT HZ \<longrightarrow> \<not> (well_formed_reply skb \<and> c \<and> nlmsg_seq skb = brc_seq st + 1)"
  shows "snd (brc_send_command HZ env request st) = Return (Inl (- ETIMEDOUT)) \<and>
    BRC_TIMEOUT HZ = 5 * HZ \<and>
    multicasts (klog (fst (brc_send_command HZ env request st))) =
      multicasts (klog st) @ [request\<lparr>nlmsg_seq := brc_seq st + 1\<rparr>] \<and>
    brc_serial (fst (brc_send_command HZ env request st)) = False \<and>
    brc_seq (fst (brc_send_command HZ env request st)) = brc_seq st + 1 \<and>
    brc_reply (fst (brc_send_command HZ env request st)) = brc_reply st"
proof -
  let ?st6 = "st\<lparr>brc_serial := True, brc_seq := brc_seq st + 1, brc_done := 0,
                   klog := klog st @ [Mutex_lock, Spin_lock_irqsave, Set_brc_seq (brc_seq st + 1),
                     Init_completion, Spin_unlock_irqrestore,
                     Genlmsg_multicast (request\<lparr>nlmsg_seq := brc_seq st + 1\<rparr>)]\<rparr>"
  let ?st = "kcall (Wait_for_completion_timeout (BRC_TIMEOUT HZ)) ?st6"
  let ?w = "wait_for_completion_timeout (BRC_TIMEOUT HZ) (arrivals env) ?st"
  have "brc_done ?st = 0" by (simp add: prim_fields)
  moreover have "\<forall>(at, skb, c) \<in> set (arrivals env).
       at < BRC_TIMEOUT HZ \<longrightarrow> \<not> (well_formed_reply skb \<and> c \<and> nlmsg_seq skb = brc_seq ?st)"
    using none by (simp add: prim_fields)
  ultimately have w: "snd ?w = False \<and> brc_seq (fst ?w) = brc_seq ?st \<and>
      brc_reply (fst ?w) = brc_reply ?st \<and> brc_done (fst ?w) = 0"
    by (rule wait_times_out)
  have m: "multicasts (klog (fst ?w)) = multicasts (klog ?st)"
    using wait_klog [of ?st "BRC_TIMEOUT HZ" "arrivals env"] by simp
  have r: "brc_send_command HZ env request st = (mutex_unlock (fst ?w), Return (Inl (- ETIMEDOUT)))"
    using sent w by (cases ?w) (simp add: send_command_unfold Let_def)
  show ?thesis
    using w m by (simp add: r prim_fields prim_klog multicasts_append BRC_TIMEOUT_def)
qed

theorem send_command_times_out_witness:
  "mc_result ex_busy = 0 \<and> BRC_TIMEOUT 100 = 500 \<and>
   list_all (\<lambda>(at, skb, c). \<not> (at < BRC_TIMEOUT 100 \<and> well_formed_reply skb \<and> c \<and>
                                  nlmsg_seq skb = brc_seq (brc_init 7) + 1)) (arrivals ex_busy) \<and>
   brc_send_command 100 ex_busy ex_request (brc_init 7) =
     (\<lparr>brc_serial = False, brc_done = 0, brc_reply = None, brc_seq = 8,
       klog = [Mutex_lock, Spin_lock_irqsave, Set_brc_seq 8, Init_completion,
               Spin_unlock_irqrestore, Genlmsg_multicast (ex_request\<lparr>nlmsg_seq := 8\<rparr>),
               Wait_for_completion_timeout 500,
               Skb_clone, Spin_lock_irqsave, Kfree_skb (ex_reply 6), Spin_unlock_irqrestore,
               Skb_clone, Mutex_unlock]\<rparr>,
      Return (Inl (- ETIMEDOUT)))"
proof -
  have sent: "0 \<le> mc_result ex_busy" by (simp add: ex_busy_def)
  have none: "\<forall>(at, skb, c) \<in> set (arrivals ex_busy).
       at < BRC_TIMEOUT 100 \<longrightarrow>
         \<not> (well_formed_reply skb \<and> c \<and> nlmsg_seq skb = brc_seq (brc_init 7) + 1)"
    by (simp add: ex_defs brc_init_def BRC_TIMEOUT_def well_formed_reply_def nlmsg_parse_def
          validate_nla_def)
  then have l: "list_all (\<lambda>(at, skb, c). \<not> (at < BRC_TIMEOUT 100 \<and> well_formed_reply skb \<and> c \<and>
                  nlmsg_seq skb = brc_seq (brc_init 7) + 1)) (arrivals ex_busy)"
    by (auto simp: list_all_iff)
  from send_command_times_out [OF sent none, of ex_request] l show ?thesis
    by (simp add: ex_defs eval_defs)
qed

text \<open>
  C5. When \<open>genlmsg_multicast\<close> returns an error, the call releases the mutex and
  returns that error at once: the log of the call ends with the send and the unlock,
  without a \<open>wait_for_completion_timeout\<close>, and nothing the daemon sends afterwards
  has any influence on the call.
\<close>

theorem send_command_transport_failure:
  assumes "mc_result env < 0"
  shows "snd (brc_send_command HZ env request st) = Return (Inl (mc_result env)) \<and>
    brc_serial (fst (brc_send_command HZ env request st)) = False \<and>
    klog (fst (brc_send_command HZ env request st)) =
      klog st @ [Mutex_lock, Spin_lock_irqsave, Set_brc_seq (brc_seq st + 1),
                 Init_completion, Spin_unlock_irqrestore,
                 Genlmsg_multicast (request\<lparr>nlmsg_seq := brc_seq st + 1\<rparr>), Mutex_unlock] \<and>
    brc_send_command HZ (env\<lparr>arrivals := evs, stragglers := ibs\<rparr>) request st =
      brc_send_command HZ env request st"
  using assms by (simp add: send_command_transport_fails)

theorem send_command_transport_failure_witness:
  "mc_result ex_no_peer < 0 \<and>
   brc_send_command 100 ex_no_peer ex_request (brc_init 7) =
     (\<lparr>brc_serial = False, brc_done = 0, brc_reply = None, brc_seq = 8,
       klog = [Mutex_lock, Spin_lock_irqsave, Set_brc_seq 8, Init_completion,
               Spin_unlock_irqrestore, Genlmsg_multicast (ex_request\<lparr>nlmsg_seq := 8\<rparr>),
               Mutex_unlock]\<rparr>,
      Return (Inl (- 3)))"
  using send_command_transport_failure [of ex_no_peer 100 ex_request "brc_init 7"]
  by (simp add: ex_defs eval_defs)

subsection \<open>Histories: helper lemmas\<close>

lemma seq_advances_append: "seq_advances (xs @ ys) = seq_advances xs + seq_advances ys"
  by (induction xs rule: seq_advances.induct) simp_all

lemma stored_replies_append: "stored_replies (xs @ ys) = stored_replies xs @ stored_replies ys"
  by (induction xs rule: stored_replies.induct) simp_all

lemma seq_follows_logI:
  "klog st' = klog st @ new \<Longrightarrow> brc_seq st' = brc_seq st + of_nat (seq_advances new) \<Longrightarrow>
   seq_follows_log st st'"
  by (simp add: seq_follows_log_def)

lemma seq_follows_log_refl: "seq_follows_log st st"
  by (simp add: seq_follows_log_def)

lemma seq_follows_log_trans:
  assumes "seq_follows_log a b" "seq_follows_log b c"
  shows "seq_follows_log a c"
proof -
  from assms obtain x y where x: "klog b = klog a @ x" and y: "klog c = klog b @ y"
    by (auto simp: seq_follows_log_def prefix_def)
  with assms show ?thesis
    by (simp add: seq_follows_log_def seq_advances_append)
qed

lemma dp_result_follows: "seq_follows_log st (fst (brc_genl_dp_result c skb info st))"
  by (rule seq_follows_logI [where new = "drop (length (klog st)) (klog (fst (brc_genl_dp_result c skb info st)))"])
     (simp_all add: brc_genl_dp_result_def prim_defs Let_def split: option.split)

lemma genl_rcv_msg_follows: "seq_follows_log st (fst (genl_rcv_msg ib st))"
  by (simp add: genl_rcv_msg_def dp_result_follows seq_follows_log_refl split: prod.split)

lemma wait_follows: "seq_follows_log st (fst (wait_for_completion_timeout t evs st))"
proof (induction evs arbitrary: st)
  case Nil
  show ?case by (simp add: seq_follows_log_def)
next
  case (Cons ev evs)
  obtain at ib where ev: "ev = (at, ib)" by (cases ev)
  have dec: "seq_follows_log st (st\<lparr>brc_done := brc_done st - 1\<rparr>)"
    by (simp add: seq_follows_log_def)
  from seq_follows_log_trans [OF genl_rcv_msg_follows Cons [of "fst (genl_rcv_msg ib st)"]]
  show ?case by (simp add: ev dec seq_follows_log_refl)
qed

lemma deliver_follows: "seq_follows_log st (deliver ibs st)"
proof (induction ibs arbitrary: st)
  case Nil
  show ?case by (simp add: seq_follows_log_refl)
next
  case (Cons ib ibs)
  from seq_follows_log_trans [OF genl_rcv_msg_follows Cons [of "fst (genl_rcv_msg ib st)"]]
  show ?case by simp
qed

lemma prim_follows:
  "seq_follows_log st (kcall Mutex_unlock st)"
  "seq_follows_log st (mutex_unlock st)"
  "seq_follows_log st (kcall Warn_on st)"
  "seq_follows_log st (kcall Spin_lock_irqsave st)"
  "seq_follows_log st (kcall Spin_unlock_irqrestore st)"
  "seq_follows_log st (kcall (Wait_for_completion_timeout t) st)"
  "seq_follows_log st (set_brc_reply v st)"
  by (simp_all add: seq_follows_log_def prim_defs)

lemma send_command_follows: "seq_follows_log st (fst (brc_send_command HZ env request st))"
proof -
  let ?st6 = "st\<lparr>brc_serial := True, brc_seq := brc_seq st + 1, brc_done := 0,
                   klog := klog st @ [Mutex_lock, Spin_lock_irqsave, Set_brc_seq (brc_seq st + 1),
                     Init_completion, Spin_unlock_irqrestore,
                     Genlmsg_multicast (request\<lparr>nlmsg_seq := brc_seq st + 1\<rparr>)]\<rparr>"
  let ?st7 = "kcall (Wait_for_completion_timeout (BRC_TIMEOUT HZ)) ?st6"
  let ?w = "wait_for_completion_timeout (BRC_TIMEOUT HZ) (arrivals env) ?st7"
  have a: "seq_follows_log st ?st6" by (simp add: seq_follows_log_def)
  have b: "seq_follows_log st (fst ?w)"
    by (rule seq_follows_log_trans [OF a seq_follows_log_trans [OF prim_follows(6) wait_follows]])
  have c: "seq_follows_log st (mutex_unlock (fst ?w))"
    by (rule seq_follows_log_trans [OF b prim_follows(2)])
  let ?st8 = "kcall Spin_lock_irqsave (deliver (stragglers env) (fst ?w))"
  let ?st11 = "mutex_unlock (kcall Spin_unlock_irqrestore (set_brc_reply None ?st8))"
  have d1: "seq_follows_log st ?st8"
    by (rule seq_follows_log_trans [OF b seq_follows_log_trans [OF deliver_follows prim_follows(4)]])
  have d2: "seq_follows_log st (kcall Spin_unlock_irqrestore (set_brc_reply None ?st8))"
    by (rule seq_follows_log_trans [OF d1 seq_follows_log_trans [OF prim_follows(7) prim_follows(5)]])
  have d: "seq_follows_log st ?st11"
    by (rule seq_follows_log_trans [OF d2 prim_follows(2)])
  have e: "seq_follows_log st (kcall Warn_on ?st11)"
    by (rule seq_follows_log_trans [OF d prim_follows(3)])
  have f: "seq_follows_log st (mutex_unlock ?st6)"
    by (rule seq_follows_log_trans [OF a prim_follows(2)])
  show ?thesis
  proof (cases "mc_result env < 0")
    case True
    with f show ?thesis by (simp add: send_command_unfold)
  next
    case False
    obtain st7 ok where w: "?w = (st7, ok)" by (cases ?w)
    show ?thesis
    proof (cases ok)
      case False
      with c w \<open>\<not> mc_result env < 0\<close> show ?thesis
        by (simp add: send_command_unfold)
    next
      case True
      show ?thesis
      proof (cases "brc_reply (kcall Spin_lock_irqsave (deliver (stragglers env) st7))")
        case None
        with d w True \<open>\<not> mc_result env < 0\<close> show ?thesis
          by (simp add: send_command_unfold Let_def)
      next
        case (Some r)
        with d e w True \<open>\<not> mc_result env < 0\<close> show ?thesis
          by (simp add: send_command_unfold Let_def split: prod.split)
      qed
    qed
  qed
qed

lemma run_follows: "run HZ evs st = Some st' \<Longrightarrow> seq_follows_log st st'"
proof (induction evs arbitrary: st)
  case Nil
  then show ?case by (simp add: seq_follows_log_refl)
next
  case (Cons ev evs)
  show ?case
  proof (cases ev)
    case (Inbound skb c)
    with Cons.prems have "run HZ evs (fst (genl_rcv_msg (skb, c) st)) = Some st'" by simp
    from seq_follows_log_trans [OF genl_rcv_msg_follows Cons.IH [OF this]] show ?thesis .
  next
    case (Call request env)
    with Cons.prems have "run HZ evs (fst (brc_send_command HZ env request st)) = Some st'"
      by (auto split: prod.splits outcome.splits)
    from seq_follows_log_trans [OF send_command_follows Cons.IH [OF this]] show ?thesis .
  qed
qed

lemma genl_rcv_msg_cases:
  obtains
    (rejected) "brc_seq (fst (genl_rcv_msg (skb, c) st)) = brc_seq st"
      "brc_reply (fst (genl_rcv_msg (skb, c) st)) = brc_reply st"
      "brc_done (fst (genl_rcv_msg (skb, c) st)) = brc_done st"
      "stored_replies (klog (fst (genl_rcv_msg (skb, c) st))) = stored_replies (klog st)"
  | (accepted) "well_formed_reply skb"
      "brc_reply (fst (genl_rcv_msg (skb, c) st)) = Some skb"
      "stored_replies (klog (fst (genl_rcv_msg (skb, c) st))) = stored_replies (klog st) @ [skb]"
proof (cases "well_formed_reply skb")
  case False
  then have "fst (genl_rcv_msg (skb, c) st) = st" by (simp add: genl_rcv_msg_malformed)
  then show ?thesis by (simp add: rejected)
next
  case True
  let ?info = "\<lparr>snd_seq = nlmsg_seq skb, attrs = snd (nlmsg_parse skb brc_genl_policy)\<rparr>"
  have present: "attrs ?info BRC_GENL_A_ERR_CODE \<noteq> None"
    using True by (simp add: well_formed_reply_def)
  note rcv = genl_rcv_msg_well_formed [OF True]
  show ?thesis
  proof (cases c)
    case False
    with dp_result_clone_fails [OF present] show ?thesis
      by (intro rejected) (simp_all add: rcv stored_replies_append)
  next
    case c: True
    show ?thesis
    proof (cases "brc_seq st = snd_seq ?info")
      case True
      from dp_result_accept [OF present True] c \<open>well_formed_reply skb\<close> show ?thesis
        by (intro accepted) (simp_all add: rcv stored_replies_append split: option.split)
    next
      case False
      from dp_result_stale [OF present False] c show ?thesis
        by (intro rejected) (simp_all add: rcv stored_replies_append)
    qed
  qed
qed

lemma genl_rcv_msg_slot_valid:
  assumes "slot_valid st"
  shows "slot_valid (fst (genl_rcv_msg ib st))"
proof -
  obtain skb c where ib: "ib = (skb, c)" by (cases ib)
  show ?thesis unfolding ib
    using assms by (cases skb c st rule: genl_rcv_msg_cases) (simp_all add: slot_valid_def)
qed

lemma genl_rcv_msg_keeps_reply:
  assumes "brc_reply st \<noteq> None"
  shows "brc_reply (fst (genl_rcv_msg ib st)) \<noteq> None"
proof -
  obtain skb c where ib: "ib = (skb, c)" by (cases ib)
  show ?thesis unfolding ib
    using assms by (cases skb c st rule: genl_rcv_msg_cases) simp_all
qed

lemma genl_rcv_msg_signalled:
  assumes "brc_done st \<noteq> 0 \<longrightarrow> brc_reply st \<noteq> None"
  shows "brc_done (fst (genl_rcv_msg ib st)) \<noteq> 0 \<longrightarrow> brc_reply (fst (genl_rcv_msg ib st)) \<noteq> None"
proof -
  obtain skb c where ib: "ib = (skb, c)" by (cases ib)
  show ?thesis unfolding ib
    using assms by (cases skb c st rule: genl_rcv_msg_cases) simp_all
qed

lemma wait_slot_valid:
  assumes "slot_valid st"
  shows "slot_valid (fst (wait_for_completion_timeout t evs st))"
  using assms
proof (induction evs arbitrary: st)
  case Nil
  then show ?case by (simp add: slot_valid_def)
next
  case (Cons ev evs)
  obtain at ib where ev: "ev = (at, ib)" by (cases ev)
  have "slot_valid (st\<lparr>brc_done := brc_done st - 1\<rparr>)"
    using Cons.prems by (simp add: slot_valid_def)
  with Cons.IH [OF genl_rcv_msg_slot_valid [OF Cons.prems, of ib]] Cons.prems
  show ?case by (simp add: ev)
qed

lemma wait_woken_has_reply:
  assumes "brc_done st \<noteq> 0 \<longrightarrow> brc_reply st \<noteq> None"
    and "snd (wait_for_completion_timeout t evs st)"
  shows "brc_reply (fst (wait_for_completion_timeout t evs st)) \<noteq> None"
  using assms
proof (induction evs arbitrary: st)
  case Nil
  then show ?case by (simp split: if_splits)
next
  case (Cons ev evs)
  obtain at ib where ev: "ev = (at, ib)" by (cases ev)
  show ?case
  proof (cases "brc_done st \<noteq> 0")
    case True
    with Cons.prems show ?thesis by (simp add: ev)
  next
    case False
    with Cons.prems(2) have "at < t" and
      "snd (wait_for_completion_timeout t evs (fst (genl_rcv_msg ib st)))"
      by (simp_all add: ev split: if_splits)
    from Cons.IH [OF genl_rcv_msg_signalled [OF Cons.prems(1)] this(2)] False \<open>at < t\<close>
    show ?thesis by (simp add: ev)
  qed
qed

lemma deliver_slot_valid: "slot_valid st \<Longrightarrow> slot_valid (deliver ibs st)"
  by (induction ibs arbitrary: st) (simp_all add: genl_rcv_msg_slot_valid)

lemma deliver_keeps_reply: "brc_reply st \<noteq> None \<Longrightarrow> brc_reply (deliver ibs st) \<noteq> None"
proof (induction ibs arbitrary: st)
  case Nil
  then show ?case by simp
next
  case (Cons ib ibs)
  from Cons.IH [OF genl_rcv_msg_keeps_reply [OF Cons.prems]] show ?case by simp
qed

lemma prim_slot_valid:
  "slot_valid st \<Longrightarrow> slot_valid (mutex_unlock st)"
  "slot_valid st \<Longrightarrow> slot_valid (kcall Spin_lock_irqsave st)"
  "slot_valid st \<Longrightarrow> slot_valid (kcall Spin_unlock_irqrestore st)"
  "slot_valid st \<Longrightarrow> slot_valid (kcall (Wait_for_completion_timeout t) st)"
  "slot_valid st \<Longrightarrow> slot_valid (set_brc_reply None st)"
  "slot_valid st \<Longrightarrow> slot_valid (kcall (Kfree_skb skb) st)"
  by (simp_all add: slot_valid_def prim_defs stored_replies_append)

text \<open>The outcome of a call from a state whose slot is valid.\<close>

lemma send_command_slot_valid:
  assumes "slot_valid st"
  shows "slot_valid (fst (brc_send_command HZ env request st)) \<and>
    snd (brc_send_command HZ env request st) \<noteq> Fault \<and>
    (\<forall>reply tb. snd (brc_send_command HZ env request st) = Return (Inr (reply, tb)) \<longrightarrow>
       well_formed_reply reply \<and> nlmsg_parse reply brc_genl_policy = (0, tb))"
proof -
  let ?st6 = "st\<lparr>brc_serial := True, brc_seq := brc_seq st + 1, brc_done := 0,
                   klog := klog st @ [Mutex_lock, Spin_lock_irqsave, Set_brc_seq (brc_seq st + 1),
                     Init_completion, Spin_unlock_irqrestore,
                     Genlmsg_multicast (request\<lparr>nlmsg_seq := brc_seq st + 1\<rparr>)]\<rparr>"
  let ?st7 = "kcall (Wait_for_completion_timeout (BRC_TIMEOUT HZ)) ?st6"
  let ?w = "wait_for_completion_timeout (BRC_TIMEOUT HZ) (arrivals env) ?st7"
  have v6: "slot_valid ?st6" using assms by (simp add: slot_valid_def stored_replies_append)
  have v7: "slot_valid ?st7" using v6 by (rule prim_slot_valid)
  have vw: "slot_valid (fst ?w)" using v7 by (rule wait_slot_valid)
  show ?thesis
  proof (cases "mc_result env < 0")
    case True
    with prim_slot_valid(1) [OF v6] show ?thesis by (simp add: send_command_unfold)
  next
    case sent: False
    obtain st7 ok where w: "?w = (st7, ok)" by (cases ?w)
    show ?thesis
    proof (cases ok)
      case False
      with prim_slot_valid(1) [OF vw] w sent show ?thesis
        by (simp add: send_command_unfold)
    next
      case True
      let ?st8 = "kcall Spin_lock_irqsave (deliver (stragglers env) st7)"
      let ?st11 = "mutex_unlock (kcall Spin_unlock_irqrestore (set_brc_reply None ?st8))"
      have "brc_done ?st7 \<noteq> 0 \<longrightarrow> brc_reply ?st7 \<noteq> None" by (simp add: kcall_def)
      moreover have "snd ?w" using w True by simp
      ultimately have "brc_reply (fst ?w) \<noteq> None" by (rule wait_woken_has_reply)
      then have "brc_reply (deliver (stragglers env) st7) \<noteq> None"
        using w by (simp add: deliver_keeps_reply)
      then obtain r where r: "brc_reply ?st8 = Some r" by (auto simp: kcall_def)
      have v8: "slot_valid ?st8"
        using vw w by (simp add: deliver_slot_valid prim_slot_valid)
      then have wf: "well_formed_reply r" using r by (simp add: slot_valid_def)
      have v11: "slot_valid ?st11" using v8 by (simp add: prim_slot_valid)
      obtain tb where p: "nlmsg_parse r brc_genl_policy = (0, tb)"
        using wf by (cases "nlmsg_parse r brc_genl_policy") (simp add: well_formed_reply_def)
      have res: "brc_send_command HZ env request st = (?st11, Return (Inr (r, tb)))"
        using w True sent r p by (simp add: send_command_unfold Let_def)
      show ?thesis
        using v11 wf p by (simp add: res)
    qed
  qed
qed

lemma send_command_no_fault: "snd (brc_send_command HZ env request st) \<noteq> Fault"
proof -
  let ?st6 = "st\<lparr>brc_serial := True, brc_seq := brc_seq st + 1, brc_done := 0,
                   klog := klog st @ [Mutex_lock, Spin_lock_irqsave, Set_brc_seq (brc_seq st + 1),
                     Init_completion, Spin_unlock_irqrestore,
                     Genlmsg_multicast (request\<lparr>nlmsg_seq := brc_seq st + 1\<rparr>)]\<rparr>"
  let ?st7 = "kcall (Wait_for_completion_timeout (BRC_TIMEOUT HZ)) ?st6"
  let ?w = "wait_for_completion_timeout (BRC_TIMEOUT HZ) (arrivals env) ?st7"
  show ?thesis
  proof (cases "mc_result env < 0")
    case True
    then show ?thesis by (simp add: send_command_unfold)
  next
    case sent: False
    obtain st7 ok where w: "?w = (st7, ok)" by (cases ?w)
    show ?thesis
    proof (cases ok)
      case False
      with w sent show ?thesis by (simp add: send_command_unfold)
    next
      case True
      have "brc_done ?st7 \<noteq> 0 \<longrightarrow> brc_reply ?st7 \<noteq> None" by (simp add: kcall_def)
      moreover have "snd ?w" using w True by simp
      ultimately have "brc_reply (fst ?w) \<noteq> None" by (rule wait_woken_has_reply)
      then have "brc_reply (deliver (stragglers env) st7) \<noteq> None"
        using w by (simp add: deliver_keeps_reply)
      then obtain r where "brc_reply (kcall Spin_lock_irqsave (deliver (stragglers env) st7)) = Some r"
        by (auto simp: kcall_def)
      with w True sent show ?thesis
        by (simp add: send_command_unfold Let_def split: prod.split)
    qed
  qed
qed

lemma run_total: "\<exists>st'. run HZ evs st = Some st'"
proof (induction evs arbitrary: st)
  case Nil
  show ?case by simp
next
  case (Cons ev evs)
  show ?case
  proof (cases ev)
    case (Inbound skb c)
    with Cons [of "fst (genl_rcv_msg (skb, c) st)"] show ?thesis by simp
  next
    case (Call request env)
    obtain st1 out where r: "brc_send_command HZ env request st = (st1, out)"
      by (cases "brc_send_command HZ env request st")
    with send_command_no_fault [of HZ env request st] obtain v where "out = Return v"
      by (cases out) simp_all
    with Cons [of st1] r Call show ?thesis by simp
  qed
qed

lemma run_slot_valid: "slot_valid st \<Longrightarrow> run HZ evs st = Some st' \<Longrightarrow> slot_valid st'"
proof (induction evs arbitrary: st)
  case Nil
  then show ?case by simp
next
  case (Cons ev evs)
  show ?case
  proof (cases ev)
    case (Inbound skb c)
    with Cons.prems have "run HZ evs (fst (genl_rcv_msg (skb, c) st)) = Some st'" by simp
    from Cons.IH [OF genl_rcv_msg_slot_valid [OF Cons.prems(1)] this] show ?thesis .
  next
    case (Call request env)
    with Cons.prems have "run HZ evs (fst (brc_send_command HZ env request st)) = Some st'"
      by (auto split: prod.splits outcome.splits)
    from Cons.IH [OF _ this] send_command_slot_valid [OF Cons.prems(1)] show ?thesis by blast
  qed
qed

lemma nla_parse_err_code_length:
  assumes "nla_parse brc_genl_policy as tb0 = (0, tb)"
    and "\<forall>d. tb0 BRC_GENL_A_ERR_CODE = Some d \<longrightarrow> 4 \<le> length d"
    and "tb BRC_GENL_A_ERR_CODE = Some d"
  shows "4 \<le> length d"
  using assms
proof (induction as arbitrary: tb0)
  case Nil
  then show ?case by simp
next
  case (Cons a as)
  obtain t p where a: "a = (t, p)" by (cases a)
  from Cons.prems(1) have ok: "\<not> validate_nla brc_genl_policy t p < 0"
    and rest: "nla_parse brc_genl_policy as (tb0(t \<mapsto> p)) = (0, tb)"
    by (auto simp: a Let_def split: if_splits)
  have "\<forall>d. (tb0(t \<mapsto> p)) BRC_GENL_A_ERR_CODE = Some d \<longrightarrow> 4 \<le> length d"
    using Cons.prems(2) ok by (auto simp: validate_nla_def errno_defs split: if_splits)
  from Cons.IH [OF rest this Cons.prems(3)] show ?case .
qed

lemma nla_get_u32_defined: "4 \<le> length d \<Longrightarrow> nla_get_u32 (Some d) \<noteq> None"
  by (auto simp: numeral_eq_Suc Suc_le_length_iff)

lemma well_formed_err_code:
  assumes "well_formed_reply r"
  shows "nla_get_u32 (snd (nlmsg_parse r brc_genl_policy) BRC_GENL_A_ERR_CODE) \<noteq> None"
proof -
  obtain tb where p: "nlmsg_parse r brc_genl_policy = (0, tb)"
    using assms by (cases "nlmsg_parse r brc_genl_policy") (simp add: well_formed_reply_def)
  from assms p obtain d where d: "tb BRC_GENL_A_ERR_CODE = Some d"
    by (auto simp: well_formed_reply_def)
  have "4 \<le> length d"
    using p d by (intro nla_parse_err_code_length [of "nlattrs r" "\<lambda>_. None" tb d])
      (simp_all add: nlmsg_parse_def)
  then show ?thesis using p d by (simp add: nla_get_u32_defined)
qed

lemma simple_command_no_fault:
  assumes "slot_valid st"
  shows "snd (brc_send_simple_command HZ env request st) \<noteq> Fault"
proof -
  obtain st1 out where r: "brc_send_command HZ env request st = (st1, out)"
    by (cases "brc_send_command HZ env request st")
  note v = send_command_slot_valid [OF assms, of HZ env request]
  show ?thesis
  proof (cases out)
    case Fault
    with v r show ?thesis by simp
  next
    case (Return x)
    show ?thesis
    proof (cases x)
      case (Inl e)
      with r Return show ?thesis by (simp add: brc_send_simple_command_def)
    next
      case (Inr p)
      obtain reply tb where p: "p = (reply, tb)" by (cases p)
      from v r Return Inr p have "well_formed_reply reply"
        and "nlmsg_parse reply brc_genl_policy = (0, tb)" by simp_all
      with well_formed_err_code [of reply] obtain code where
        "nla_get_u32 (tb BRC_GENL_A_ERR_CODE) = Some code" by auto
      with r Return Inr p show ?thesis by (simp add: brc_send_simple_command_def)
    qed
  qed
qed

subsection \<open>Claims about histories\<close>

text \<open>
  C2 (as amended). The claim says that \<open>brc_seq\<close> strictly increases by exactly one per
  completed or stale-rejected reply cycle, never decreases and never skips more than one
  value per round. In the code \<open>brc_seq\<close> is a \<open>u32\<close> that is incremented at every
  send (line 471) and at every accepted reply (line 426), and nowhere else. What holds is:

  every history of sends and inbound replies runs to its end, and at its end \<open>brc_seq\<close>
  is its initial value plus the number of requests multicast plus the number of replies
  accepted, modulo \<open>2 ^ 32\<close>. So each send and each accepted reply advances it by
  exactly one, and a stale, malformed or unclonable reply leaves it unchanged.
\<close>

theorem seq_counts_sends_and_accepts:
  "\<exists>st'. run HZ evs st = Some st' \<and> prefix (klog st) (klog st') \<and>
     brc_seq st' = brc_seq st + of_nat (seq_advances (drop (length (klog st)) (klog st')))"
proof -
  obtain st' where st': "run HZ evs st = Some st'" using run_total by blast
  from run_follows [OF st'] st' show ?thesis by (simp add: seq_follows_log_def)
qed

theorem seq_counts_sends_and_accepts_witness:
  "map_option brc_seq
     (run 100 [Call ex_request (ex_answered 8), Inbound (ex_reply 6) True,
               Call ex_request ex_silence, Inbound (ex_reply 10) True] (brc_init 7)) = Some 11 \<and>
   map_option (\<lambda>st. seq_advances (klog st))
     (run 100 [Call ex_request (ex_answered 8), Inbound (ex_reply 6) True,
               Call ex_request ex_silence, Inbound (ex_reply 10) True] (brc_init 7)) = Some 4"
  using seq_counts_sends_and_accepts [of 100
          "[Call ex_request (ex_answered 8), Inbound (ex_reply 6) True,
            Call ex_request ex_silence, Inbound (ex_reply 10) True]" "brc_init 7"]
  by (simp add: ex_defs eval_defs)

text \<open>
  The claim as stated fails four ways: a send from \<open>brc_seq = 2 ^ 32 - 1\<close> wraps the
  counter to 0 (a decrease); a completed round advances it by two (7 to 9), not by one;
  a stale reply leaves it where it was instead of increasing it; and three replies that
  each carry the current number advance it by three without any send.
\<close>

theorem seq_wraps_and_jumps_counterexample:
  "brc_seq (fst (brc_send_command 100 ex_silence ex_request (brc_init 4294967295))) = 0 \<and>
   snd (brc_send_command 100 ex_silence ex_request (brc_init 4294967295)) =
     Return (Inl (- ETIMEDOUT)) \<and>
   brc_seq (fst (brc_send_simple_command 100 (ex_answered 8) ex_request (brc_init 7))) = 9 \<and>
   snd (brc_send_simple_command 100 (ex_answered 8) ex_request (brc_init 7)) = Return 0 \<and>
   genl_rcv_msg (ex_reply 6, True) (brc_init 7) =
     (brc_init 7\<lparr>klog := [Skb_clone, Spin_lock_irqsave, Kfree_skb (ex_reply 6),
                            Spin_unlock_irqrestore]\<rparr>, - ESTALE) \<and>
   map_option brc_seq (run 100 [Inbound (ex_reply 7) True, Inbound (ex_reply 8) True,
                                Inbound (ex_reply 9) True] (brc_init 7)) = Some 10"
  by (simp add: ex_defs eval_defs brc_send_simple_command_def)

text \<open>
  C9. After any history that starts at module initialisation, every reply that was
  ever written to \<open>brc_reply\<close>, and the one it holds, passed \<open>brc_genl_policy\<close> and
  carries the error code. Therefore a call made then never reads through a NULL reply;
  when it returns a reply, parsing it again succeeds with error 0 and the error-code
  attribute of the table can be read (it is present and has four bytes); and
  \<open>brc_send_simple_command\<close>, which reads it unconditionally, never faults.
\<close>

theorem stored_replies_validated:
  "\<exists>st. run HZ evs (brc_init r) = Some st \<and>
     list_all well_formed_reply (stored_replies (klog st)) \<and>
     (case brc_reply st of None \<Rightarrow> True | Some skb \<Rightarrow> well_formed_reply skb) \<and>
     snd (brc_send_command HZ env request st) \<noteq> Fault \<and>
     (\<forall>reply tb. snd (brc_send_command HZ env request st) = Return (Inr (reply, tb)) \<longrightarrow>
        nlmsg_parse reply brc_genl_policy = (0, tb) \<and>
        nla_get_u32 (tb BRC_GENL_A_ERR_CODE) \<noteq> None) \<and>
     snd (brc_send_simple_command HZ env request st) \<noteq> Fault"
proof -
  obtain st where st: "run HZ evs (brc_init r) = Some st" using run_total by blast
  have "slot_valid (brc_init r)" by (simp add: slot_valid_def brc_init_def)
  then have v: "slot_valid st" using st by (rule run_slot_valid)
  note s = send_command_slot_valid [OF v, of HZ env request]
  have "nlmsg_parse reply brc_genl_policy = (0, tb) \<and>
        nla_get_u32 (tb BRC_GENL_A_ERR_CODE) \<noteq> None"
    if "snd (brc_send_command HZ env request st) = Return (Inr (reply, tb))" for reply tb
    using s that well_formed_err_code [of reply] by auto
  with st v s simple_command_no_fault [OF v, of HZ env request] show ?thesis
    by (auto simp: slot_valid_def)
qed

theorem stored_replies_validated_witness:
  "run 100 [Call ex_request ex_silence, Inbound (ex_reply 8) True] (brc_init 7) = Some ex_late_state \<and>
   stored_replies (klog ex_late_state) = [ex_reply 8] \<and>
   well_formed_reply (ex_reply 8) \<and>
   snd (brc_send_command 100 (ex_answered 10) ex_request ex_late_state) =
     Return (Inr (ex_reply 10, snd (nlmsg_parse (ex_reply 10) brc_genl_policy))) \<and>
   nlmsg_parse (ex_reply 10) brc_genl_policy = (0, [BRC_GENL_A_ERR_CODE \<mapsto> [0, 0, 0, 0]]) \<and>
   nla_get_u32 (Some [0, 0, 0, 0]) = Some 0 \<and>
   snd (brc_send_simple_command 100 (ex_answered 10) ex_request ex_late_state) = Return 0"
  using stored_replies_validated [of 100
          "[Call ex_request ex_silence, Inbound (ex_reply 8) True]" 7 "ex_answered 10" ex_request]
  by (simp add: ex_defs eval_defs brc_send_simple_command_def well_formed_reply_def)

subsection \<open>The ioctl adapters: helper lemmas\<close>

lemma user_copies_append: "user_copies (xs @ ys) = user_copies xs @ user_copies ys"
  by (induction xs rule: user_copies.induct) simp_all

lemma genl_rcv_msg_no_copy:
  "user_copies (klog (fst (genl_rcv_msg ib st))) = user_copies (klog st)"
  by (simp add: genl_rcv_msg_def brc_genl_dp_result_def prim_defs Let_def user_copies_append
           split: prod.split option.split)

lemma wait_no_copy:
  "user_copies (klog (fst (wait_for_completion_timeout t evs st))) = user_copies (klog st)"
proof (induction evs arbitrary: st)
  case Nil
  show ?case by simp
next
  case (Cons ev evs)
  obtain at ib where ev: "ev = (at, ib)" by (cases ev)
  from Cons [of "fst (genl_rcv_msg ib st)"] show ?case
    by (simp add: ev genl_rcv_msg_no_copy)
qed

lemma deliver_no_copy: "user_copies (klog (deliver ibs st)) = user_copies (klog st)"
  by (induction ibs arbitrary: st) (simp_all add: genl_rcv_msg_no_copy)

lemma send_command_no_copy:
  "user_copies (klog (fst (brc_send_command HZ env request st))) = user_copies (klog st)"
proof -
  let ?st6 = "st\<lparr>brc_serial := True, brc_seq := brc_seq st + 1, brc_done := 0,
                   klog := klog st @ [Mutex_lock, Spin_lock_irqsave, Set_brc_seq (brc_seq st + 1),
                     Init_completion, Spin_unlock_irqrestore,
                     Genlmsg_multicast (request\<lparr>nlmsg_seq := brc_seq st + 1\<rparr>)]\<rparr>"
  let ?st7 = "kcall (Wait_for_completion_timeout (BRC_TIMEOUT HZ)) ?st6"
  let ?w = "wait_for_completion_timeout (BRC_TIMEOUT HZ) (arrivals env) ?st7"
  have w: "user_copies (klog (fst ?w)) = user_copies (klog st)"
    by (simp add: wait_no_copy prim_klog user_copies_append)
  show ?thesis
  proof (cases "mc_result env < 0")
    case True
    then show ?thesis by (simp add: send_command_unfold prim_klog user_copies_append)
  next
    case sent: False
    obtain st7 ok where r: "?w = (st7, ok)" by (cases ?w)
    with w have c7: "user_copies (klog st7) = user_copies (klog st)" by simp
    show ?thesis
    proof (cases ok)
      case False
      with r sent c7 show ?thesis
        by (simp add: send_command_unfold prim_klog user_copies_append)
    next
      case True
      with r sent c7 show ?thesis
        by (simp add: send_command_unfold Let_def prim_klog prim_fields user_copies_append
              deliver_no_copy split: option.split prod.split)
    qed
  qed
qed

text \<open>Error results of the round trip are negative.\<close>

lemma send_command_error_negative:
  "snd (brc_send_command HZ env request st) = Return (Inl e) \<Longrightarrow> e < 0"
proof -
  let ?st6 = "st\<lparr>brc_serial := True, brc_seq := brc_seq st + 1, brc_done := 0,
                   klog := klog st @ [Mutex_lock, Spin_lock_irqsave, Set_brc_seq (brc_seq st + 1),
                     Init_completion, Spin_unlock_irqrestore,
                     Genlmsg_multicast (request\<lparr>nlmsg_seq := brc_seq st + 1\<rparr>)]\<rparr>"
  let ?st7 = "kcall (Wait_for_completion_timeout (BRC_TIMEOUT HZ)) ?st6"
  let ?w = "wait_for_completion_timeout (BRC_TIMEOUT HZ) (arrivals env) ?st7"
  assume a: "snd (brc_send_command HZ env request st) = Return (Inl e)"
  obtain st7 ok where r: "?w = (st7, ok)" by (cases ?w)
  from a r show ?thesis
    by (cases "mc_result env < 0"; cases ok)
       (auto simp: send_command_unfold Let_def errno_defs split: option.splits prod.splits)
qed

lemma make_request_no_copy:
  "user_copies (klog (fst (brc_make_request env op bridge port st))) = user_copies (klog st)"
  by (simp add: brc_make_request_def Let_def prim_klog user_copies_append
           split: option.split)

lemma get_indices_exact:
  assumes "0 \<le> n" "n < 2048"
    and "brc_make_request env op br_name None st = (st1, Some request)"
    and "brc_send_command HZ (round_trip env) request st1 = (st2, Return (Inr (reply, tb)))"
    and "nla_get_u32 (tb BRC_GENL_A_ERR_CODE) = Some code" "\<not> sint (- code) < 0"
    and "tb BRC_GENL_A_IFINDEXES = Some indices" "length indices = 4 * k"
    and "4 * nat n \<le> uwritable env"
  shows "brc_get_indices HZ env op br_name n st =
     (st2\<lparr>klog := klog st2 @ [Copy_to_user (take (4 * min (nat n) k) indices), Kfree_skb reply]\<rparr>,
      Return (int (min (nat n) k)))"
proof -
  have m: "nat (min n (int k)) = min (nat n) k" using assms(1) by arith
  have i: "min n (int k) = int (min (nat n) k)" using assms(1) by arith
  have le: "min (nat n) k * 4 \<le> uwritable env" using assms(9) by arith
  show ?thesis
    using assms le
    by (simp add: brc_get_indices_def copy_to_user_def kcall_def m i mult.commute min_absorb1)
qed

lemma get_indices_overall:
  "list_all (\<lambda>bytes. length bytes \<le> 4 * nat n)
     (drop (length (user_copies (klog st)))
        (user_copies (klog (fst (brc_get_indices HZ env op br_name n st))))) \<and>
   (\<forall>v. snd (brc_get_indices HZ env op br_name n st) = Return v \<and> 0 \<le> v \<longrightarrow>
      v \<le> n \<and>
      map length (drop (length (user_copies (klog st)))
        (user_copies (klog (fst (brc_get_indices HZ env op br_name n st))))) = [4 * nat v])"
proof -
  obtain st1 rq where mk: "brc_make_request env op br_name None st = (st1, rq)"
    by (cases "brc_make_request env op br_name None st")
  have c1: "user_copies (klog st1) = user_copies (klog st)"
    using make_request_no_copy [of env op br_name None st] mk by simp
  show ?thesis
  proof (cases "n < 0 \<or> 2048 \<le> n")
    case True
    then show ?thesis by (auto simp: brc_get_indices_def errno_defs)
  next
    case range: False
    show ?thesis
    proof (cases rq)
      case None
      with range mk c1 show ?thesis by (simp add: brc_get_indices_def errno_defs)
    next
      case (Some request)
      obtain st2 out where sc: "brc_send_command HZ (round_trip env) request st1 = (st2, out)"
        by (cases "brc_send_command HZ (round_trip env) request st1")
      have c2: "user_copies (klog st2) = user_copies (klog st)"
        using send_command_no_copy [of HZ "round_trip env" request st1] sc c1 by simp
      have neg: "e < 0" if "out = Return (Inl e)" for e
        using send_command_error_negative [of HZ "round_trip env" request st1 e] sc that by simp
      show ?thesis
        using range mk Some sc c2 neg
        by (auto simp: brc_get_indices_def copy_to_user_def prim_klog user_copies_append
              errno_defs Let_def min_def
              split: outcome.splits sum.splits prod.splits option.splits if_splits)
    qed
  qed
qed

lemma get_indices_error_reply:
  assumes "0 \<le> n" "n < 2048"
    and "brc_make_request env op br_name None st = (st1, Some request)"
    and "brc_send_command HZ (round_trip env) request st1 = (st2, Return (Inr (reply, tb)))"
    and "nla_get_u32 (tb BRC_GENL_A_ERR_CODE) = Some code" "sint (- code) < 0"
  shows "brc_get_indices HZ env op br_name n st =
     (st2\<lparr>klog := klog st2 @ [Kfree_skb reply]\<rparr>, Return (sint (- code)))"
  using assms by (simp add: brc_get_indices_def kcall_def)

lemma fdb_error_reply:
  assumes "brc_make_request env BRC_GENL_C_FDB_QUERY (Some dev_name) None st = (st1, Some request0)"
    and "nla_put (nla_room env) BRC_GENL_A_FDB_COUNT
           (u64_bytes (min maxnum (PAGE_SIZE div sizeof_fdb_entry))) request0 = Some request1"
    and "nla_put (nla_room env) BRC_GENL_A_FDB_SKIP (u64_bytes offset) request1 = Some request"
    and "brc_send_command HZ (round_trip env) request (kcall Rtnl_unlock st1) =
           (st2, Return (Inr (reply, tb)))"
    and "nla_get_u32 (tb BRC_GENL_A_ERR_CODE) = Some code" "sint (- code) < 0"
  shows "brc_get_fdb_entries HZ PAGE_SIZE env dev_name maxnum offset st =
    (st2\<lparr>klog := klog st2 @ [Kfree_skb reply, Rtnl_lock]\<rparr>, Return (sint (- code)))"
proof -
  have c: "(if maxnum > PAGE_SIZE div sizeof_fdb_entry then PAGE_SIZE div sizeof_fdb_entry
            else maxnum) = min maxnum (PAGE_SIZE div sizeof_fdb_entry)"
    by (simp add: min_def)
  show ?thesis
    using assms unfolding brc_get_fdb_entries_def c Let_def
    by (simp add: kcall_def)
qed

lemma send_command_multicasts:
  "multicasts (klog (fst (brc_send_command HZ env request st))) =
     multicasts (klog st) @ [request\<lparr>nlmsg_seq := brc_seq st + 1\<rparr>]"
proof -
  let ?st6 = "st\<lparr>brc_serial := True, brc_seq := brc_seq st + 1, brc_done := 0,
                   klog := klog st @ [Mutex_lock, Spin_lock_irqsave, Set_brc_seq (brc_seq st + 1),
                     Init_completion, Spin_unlock_irqrestore,
                     Genlmsg_multicast (request\<lparr>nlmsg_seq := brc_seq st + 1\<rparr>)]\<rparr>"
  let ?st7 = "kcall (Wait_for_completion_timeout (BRC_TIMEOUT HZ)) ?st6"
  let ?w = "wait_for_completion_timeout (BRC_TIMEOUT HZ) (arrivals env) ?st7"
  have w: "multicasts (klog (fst ?w)) =
             multicasts (klog st) @ [request\<lparr>nlmsg_seq := brc_seq st + 1\<rparr>]"
    using wait_klog [of ?st7 "BRC_TIMEOUT HZ" "arrivals env"]
    by (simp add: prim_klog multicasts_append)
  show ?thesis
  proof (cases "mc_result env < 0")
    case True
    then show ?thesis by (simp add: send_command_unfold prim_klog multicasts_append)
  next
    case sent: False
    obtain st7 ok where r: "?w = (st7, ok)" by (cases ?w)
    with w have c7: "multicasts (klog st7) =
        multicasts (klog st) @ [request\<lparr>nlmsg_seq := brc_seq st + 1\<rparr>]" by simp
    show ?thesis
    proof (cases ok)
      case False
      with r sent c7 show ?thesis
        by (simp add: send_command_unfold prim_klog multicasts_append)
    next
      case True
      with r sent c7 deliver_klog [of st7 "stragglers env"] show ?thesis
        by (simp add: send_command_unfold Let_def prim_klog prim_fields multicasts_append
              split: option.split prod.split)
    qed
  qed
qed

lemma make_request_no_multicast:
  "multicasts (klog (fst (brc_make_request env op bridge port st))) = multicasts (klog st)"
  by (simp add: brc_make_request_def Let_def prim_klog multicasts_append split: option.split)

lemma fdb_exact:
  assumes "brc_make_request env BRC_GENL_C_FDB_QUERY (Some dev_name) None st = (st1, Some request0)"
    and "nla_put (nla_room env) BRC_GENL_A_FDB_COUNT
           (u64_bytes (min maxnum (PAGE_SIZE div sizeof_fdb_entry))) request0 = Some request1"
    and "nla_put (nla_room env) BRC_GENL_A_FDB_SKIP (u64_bytes offset) request1 = Some request"
    and "brc_send_command HZ (round_trip env) request (kcall Rtnl_unlock st1) =
           (st2, Return (Inr (reply, tb)))"
    and "nla_get_u32 (tb BRC_GENL_A_ERR_CODE) = Some code" "\<not> sint (- code) < 0"
    and "tb BRC_GENL_A_FDB_DATA = Some data"
  shows "brc_get_fdb_entries HZ PAGE_SIZE env dev_name maxnum offset st =
    (if length data mod sizeof_fdb_entry \<noteq> 0 \<or>
        length data div sizeof_fdb_entry > min maxnum (PAGE_SIZE div sizeof_fdb_entry)
     then (st2\<lparr>klog := klog st2 @ [Kfree_skb reply, Rtnl_lock]\<rparr>, Return (- EINVAL))
     else if length data \<le> uwritable env
     then (st2\<lparr>klog := klog st2 @ [Copy_to_user data, Kfree_skb reply, Rtnl_lock]\<rparr>,
           Return (int (length data div sizeof_fdb_entry)))
     else (st2\<lparr>klog := klog st2 @ [Copy_to_user (take (uwritable env) data), Kfree_skb reply,
                                       Rtnl_lock]\<rparr>,
           Return (- EFAULT)))"
proof -
  have c: "(if maxnum > PAGE_SIZE div sizeof_fdb_entry then PAGE_SIZE div sizeof_fdb_entry
            else maxnum) = min maxnum (PAGE_SIZE div sizeof_fdb_entry)"
    by (simp add: min_def)
  show ?thesis
    using assms unfolding brc_get_fdb_entries_def c Let_def
    by (simp add: copy_to_user_def kcall_def min_def)
qed

lemma fdb_overall:
  "list_all (\<lambda>rq. (BRC_GENL_A_FDB_COUNT, u64_bytes (min maxnum (PAGE_SIZE div sizeof_fdb_entry)))
                     \<in> set (nlattrs rq))
     (drop (length (multicasts (klog st)))
        (multicasts (klog (fst (brc_get_fdb_entries HZ PAGE_SIZE env dev_name maxnum offset st))))) \<and>
   (\<forall>v. snd (brc_get_fdb_entries HZ PAGE_SIZE env dev_name maxnum offset st) = Return v \<and> 0 \<le> v \<longrightarrow>
      nat v \<le> maxnum \<and> nat v \<le> PAGE_SIZE div sizeof_fdb_entry \<and>
      map length (drop (length (user_copies (klog st)))
        (user_copies (klog (fst (brc_get_fdb_entries HZ PAGE_SIZE env dev_name maxnum offset st))))) =
        [sizeof_fdb_entry * nat v])"
proof -
  let ?clamped = "min maxnum (PAGE_SIZE div sizeof_fdb_entry)"
  have c: "(if maxnum > PAGE_SIZE div sizeof_fdb_entry then PAGE_SIZE div sizeof_fdb_entry
            else maxnum) = ?clamped"
    by (simp add: min_def)
  obtain st1 rq where mk: "brc_make_request env BRC_GENL_C_FDB_QUERY (Some dev_name) None st = (st1, rq)"
    by (cases "brc_make_request env BRC_GENL_C_FDB_QUERY (Some dev_name) None st")
  have c1: "user_copies (klog st1) = user_copies (klog st)"
    using make_request_no_copy [of env BRC_GENL_C_FDB_QUERY "Some dev_name" None st] mk by simp
  have m1: "multicasts (klog st1) = multicasts (klog st)"
    using make_request_no_multicast [of env BRC_GENL_C_FDB_QUERY "Some dev_name" None st] mk by simp
  show ?thesis
  proof (cases rq)
    case None
    with mk c1 m1 show ?thesis by (simp add: brc_get_fdb_entries_def errno_defs)
  next
    case (Some request0)
    show ?thesis
    proof (cases "nla_put (nla_room env) BRC_GENL_A_FDB_COUNT (u64_bytes ?clamped) request0")
      case None
      with mk Some c1 m1 show ?thesis
        unfolding brc_get_fdb_entries_def c Let_def
        by (simp add: errno_defs prim_klog user_copies_append multicasts_append)
    next
      case p1: (Some request1)
      show ?thesis
      proof (cases "nla_put (nla_room env) BRC_GENL_A_FDB_SKIP (u64_bytes offset) request1")
        case None
        with mk Some p1 c1 m1 show ?thesis
          unfolding brc_get_fdb_entries_def c Let_def
          by (simp add: errno_defs prim_klog user_copies_append multicasts_append)
      next
        case p2: (Some request)
        have count: "(BRC_GENL_A_FDB_COUNT, u64_bytes ?clamped) \<in> set (nlattrs request)"
          using p1 p2 by (auto simp: nla_put_def split: if_splits)
        let ?st1 = "kcall Rtnl_unlock st1"
        obtain st2 out where sc: "brc_send_command HZ (round_trip env) request ?st1 = (st2, out)"
          by (cases "brc_send_command HZ (round_trip env) request ?st1")
        have c2: "user_copies (klog st2) = user_copies (klog st)"
          using send_command_no_copy [of HZ "round_trip env" request ?st1] sc c1
          by (simp add: prim_klog user_copies_append)
        have m2: "multicasts (klog st2) =
                    multicasts (klog st) @ [request\<lparr>nlmsg_seq := brc_seq ?st1 + 1\<rparr>]"
          using send_command_multicasts [of HZ "round_trip env" request ?st1] sc m1
          by (simp add: prim_klog multicasts_append)
        have neg: "e < 0" if "out = Return (Inl e)" for e
          using send_command_error_negative [of HZ "round_trip env" request ?st1 e] sc that by simp
        show ?thesis
          using mk Some p1 p2 sc c2 m2 neg count
          unfolding brc_get_fdb_entries_def c Let_def
          by (auto simp: copy_to_user_def prim_klog user_copies_append multicasts_append
                errno_defs min_def sizeof_fdb_entry_def
                split: outcome.splits sum.splits prod.splits option.splits if_splits)
      qed
    qed
  qed
qed

subsection \<open>Claims about the ioctl adapters\<close>

text \<open>
  C10. An enumeration request with a negative capacity fails with \<open>-EINVAL\<close>, and one
  with a capacity of 2048 or more fails with \<open>-ENOMEM\<close>, before anything else happens:
  the state is returned as it was, so no request was allocated or sent and \<open>brc_seq\<close>
  did not move. The same holds through \<open>brc_get_bridges\<close> and \<open>brc_get_port_list\<close>
  (which only releases and retakes the rtnl lock around the call).
\<close>

theorem get_indices_rejects_bad_capacity:
  "(n < 0 \<longrightarrow> brc_get_indices HZ env op br_name n st = (st, Return (- EINVAL)) \<and>
               brc_get_bridges HZ env n st = (st, Return (- EINVAL)) \<and>
               brc_get_port_list HZ env dev_name n st =
                 (st\<lparr>klog := klog st @ [Rtnl_unlock, Rtnl_lock]\<rparr>, Return (- EINVAL))) \<and>
   (2048 \<le> n \<longrightarrow> brc_get_indices HZ env op br_name n st = (st, Return (- ENOMEM)) \<and>
               brc_get_bridges HZ env n st = (st, Return (- ENOMEM)) \<and>
               brc_get_port_list HZ env dev_name n st =
                 (st\<lparr>klog := klog st @ [Rtnl_unlock, Rtnl_lock]\<rparr>, Return (- ENOMEM)))"
  by (simp add: brc_get_indices_def brc_get_bridges_def brc_get_port_list_def kcall_def)

theorem get_indices_rejects_bad_capacity_witness:
  "brc_get_indices 100 (ex_ioctl (ex_indices_reply 8 0) 16) BRC_GENL_C_GET_PORTS
      (Some [98, 114, 48]) (- 1) (brc_init 7) = (brc_init 7, Return (- EINVAL)) \<and>
   brc_get_indices 100 (ex_ioctl (ex_indices_reply 8 0) 16) BRC_GENL_C_GET_PORTS
      (Some [98, 114, 48]) 2048 (brc_init 7) = (brc_init 7, Return (- ENOMEM))"
  using get_indices_rejects_bad_capacity [of "- 1" 100 "ex_ioctl (ex_indices_reply 8 0) 16" BRC_GENL_C_GET_PORTS
               "Some [98, 114, 48]" "brc_init 7"]
        get_indices_rejects_bad_capacity [of 2048 100 "ex_ioctl (ex_indices_reply 8 0) 16" BRC_GENL_C_GET_PORTS
               "Some [98, 114, 48]" "brc_init 7"]
  by simp

text \<open>
  C7 (as amended). The claim promises \<open>min n k\<close> copied and returned for every reply
  that carries \<open>k\<close> indices. \<open>brc_get_indices\<close> looks at the error code of the
  reply first (lines 120-122) and returns it, negated, without looking at the indices,
  so the promise holds for the replies that pass that test. What holds is:

  an enumeration call with capacity \<open>n\<close> never hands more than \<open>n\<close> indices
  (\<open>4 * n\<close> bytes) to \<open>copy_to_user\<close>, and whenever it returns a value \<open>v \<ge> 0\<close>
  then \<open>v \<le> n\<close> and exactly \<open>v\<close> indices were copied. When \<open>0 \<le> n < 2048\<close>, the
  round trip delivers a reply whose error code passes the test (the negated code is
  not negative as an int, as for code 0) and which carries \<open>k\<close> indices, and the
  caller's buffer is writable for \<open>n\<close> indices, exactly \<open>min n k\<close> indices are copied
  and \<open>min n k\<close> is returned. A reply whose negated error code is negative makes the
  call return that value and copy nothing.
\<close>

theorem get_indices_copies_min:
  "list_all (\<lambda>bytes. length bytes \<le> 4 * nat n)
     (drop (length (user_copies (klog st)))
        (user_copies (klog (fst (brc_get_indices HZ env op br_name n st))))) \<and>
   (\<forall>v. snd (brc_get_indices HZ env op br_name n st) = Return v \<and> 0 \<le> v \<longrightarrow>
      v \<le> n \<and>
      map length (drop (length (user_copies (klog st)))
        (user_copies (klog (fst (brc_get_indices HZ env op br_name n st))))) = [4 * nat v]) \<and>
   (0 \<le> n \<and> n < 2048 \<and>
    brc_make_request env op br_name None st = (st1, Some request) \<and>
    brc_send_command HZ (round_trip env) request st1 = (st2, Return (Inr (reply, tb))) \<and>
    nla_get_u32 (tb BRC_GENL_A_ERR_CODE) = Some code \<longrightarrow>
      (sint (- code) < 0 \<longrightarrow>
         brc_get_indices HZ env op br_name n st =
           (st2\<lparr>klog := klog st2 @ [Kfree_skb reply]\<rparr>, Return (sint (- code)))) \<and>
      (\<not> sint (- code) < 0 \<and> tb BRC_GENL_A_IFINDEXES = Some indices \<and>
       length indices = 4 * k \<and> 4 * nat n \<le> uwritable env \<longrightarrow>
         brc_get_indices HZ env op br_name n st =
           (st2\<lparr>klog := klog st2 @
                     [Copy_to_user (take (4 * min (nat n) k) indices), Kfree_skb reply]\<rparr>,
            Return (int (min (nat n) k)))))"
proof (intro conjI impI)
  show "list_all (\<lambda>bytes. length bytes \<le> 4 * nat n)
     (drop (length (user_copies (klog st)))
        (user_copies (klog (fst (brc_get_indices HZ env op br_name n st)))))"
    using get_indices_overall [of n st HZ env op br_name] by blast
  show "\<forall>v. snd (brc_get_indices HZ env op br_name n st) = Return v \<and> 0 \<le> v \<longrightarrow>
      v \<le> n \<and>
      map length (drop (length (user_copies (klog st)))
        (user_copies (klog (fst (brc_get_indices HZ env op br_name n st))))) = [4 * nat v]"
    using get_indices_overall [of n st HZ env op br_name] by blast
next
  assume "0 \<le> n \<and> n < 2048 \<and>
    brc_make_request env op br_name None st = (st1, Some request) \<and>
    brc_send_command HZ (round_trip env) request st1 = (st2, Return (Inr (reply, tb))) \<and>
    nla_get_u32 (tb BRC_GENL_A_ERR_CODE) = Some code"
    and "sint (- code) < 0"
  then show "brc_get_indices HZ env op br_name n st =
           (st2\<lparr>klog := klog st2 @ [Kfree_skb reply]\<rparr>, Return (sint (- code)))"
    by (intro get_indices_error_reply [where tb = tb and request = request and ?st1.0 = st1])
       simp_all
next
  assume "0 \<le> n \<and> n < 2048 \<and>
    brc_make_request env op br_name None st = (st1, Some request) \<and>
    brc_send_command HZ (round_trip env) request st1 = (st2, Return (Inr (reply, tb))) \<and>
    nla_get_u32 (tb BRC_GENL_A_ERR_CODE) = Some code"
    and "\<not> sint (- code) < 0 \<and> tb BRC_GENL_A_IFINDEXES = Some indices \<and>
       length indices = 4 * k \<and> 4 * nat n \<le> uwritable env"
  then show "brc_get_indices HZ env op br_name n st =
           (st2\<lparr>klog := klog st2 @
                     [Copy_to_user (take (4 * min (nat n) k) indices), Kfree_skb reply]\<rparr>,
            Return (int (min (nat n) k)))"
    by (intro get_indices_exact [where code = code and tb = tb and request = request and ?st1.0 = st1])
       simp_all
qed

theorem get_indices_copies_min_witness:
  "brc_make_request (ex_ioctl (ex_indices_reply 8 0) 16) BRC_GENL_C_GET_PORTS
      (Some [98, 114, 48]) None (brc_init 7) =
     (brc_init 7\<lparr>klog := [Genlmsg_new]\<rparr>, Some (ex_query BRC_GENL_C_GET_PORTS)) \<and>
   snd (brc_send_command 100 (round_trip (ex_ioctl (ex_indices_reply 8 0) 16))
          (ex_query BRC_GENL_C_GET_PORTS) (brc_init 7\<lparr>klog := [Genlmsg_new]\<rparr>)) =
     Return (Inr (ex_indices_reply 8 0, snd (nlmsg_parse (ex_indices_reply 8 0) brc_genl_policy))) \<and>
   nla_get_u32 (snd (nlmsg_parse (ex_indices_reply 8 0) brc_genl_policy) BRC_GENL_A_ERR_CODE) = Some 0 \<and>
   snd (nlmsg_parse (ex_indices_reply 8 0) brc_genl_policy) BRC_GENL_A_IFINDEXES = Some ex_indices \<and>
   length ex_indices = 4 * 10 \<and>
   snd (brc_get_indices 100 (ex_ioctl (ex_indices_reply 8 0) 16) BRC_GENL_C_GET_PORTS
          (Some [98, 114, 48]) 4 (brc_init 7)) = Return 4 \<and>
   user_copies (klog (fst (brc_get_indices 100 (ex_ioctl (ex_indices_reply 8 0) 16)
          BRC_GENL_C_GET_PORTS (Some [98, 114, 48]) 4 (brc_init 7)))) =
     [[1, 0, 0, 0, 2, 0, 0, 0, 3, 0, 0, 0, 4, 0, 0, 0]]"
proof -
  let ?env = "ex_ioctl (ex_indices_reply 8 0) 16"
  let ?tb = "snd (nlmsg_parse (ex_indices_reply 8 0) brc_genl_policy)"
  let ?st1 = "brc_init 7\<lparr>klog := [Genlmsg_new]\<rparr>"
  let ?st2 = "fst (brc_send_command 100 (round_trip ?env) (ex_query BRC_GENL_C_GET_PORTS) ?st1)"
  have h: "brc_make_request ?env BRC_GENL_C_GET_PORTS (Some [98, 114, 48]) None (brc_init 7) =
             (?st1, Some (ex_query BRC_GENL_C_GET_PORTS))"
    "snd (brc_send_command 100 (round_trip ?env) (ex_query BRC_GENL_C_GET_PORTS) ?st1) =
       Return (Inr (ex_indices_reply 8 0, ?tb))"
    "nla_get_u32 (?tb BRC_GENL_A_ERR_CODE) = Some 0" "\<not> sint (- (0 :: u32)) < 0"
    "?tb BRC_GENL_A_IFINDEXES = Some ex_indices" "length ex_indices = 4 * 10"
    "4 * nat 4 \<le> uwritable ?env"
    by (simp_all add: adapter_ex_defs adapter_eval_defs ex_indices_def ex_query_def)
  have sc: "brc_send_command 100 (round_trip ?env) (ex_query BRC_GENL_C_GET_PORTS) ?st1 =
              (?st2, Return (Inr (ex_indices_reply 8 0, ?tb)))"
    using h(2) by (simp add: prod_eq_iff)
  from get_indices_copies_min [where n = 4 and st = "brc_init 7" and HZ = 100 and env = ?env
             and op = BRC_GENL_C_GET_PORTS and br_name = "Some [98, 114, 48]"
             and ?st1.0 = ?st1 and ?st2.0 = ?st2
             and request = "ex_query BRC_GENL_C_GET_PORTS" and reply = "ex_indices_reply 8 0"
             and tb = ?tb and code = 0 and indices = ex_indices and k = 10] h sc
  have r: "brc_get_indices 100 ?env BRC_GENL_C_GET_PORTS (Some [98, 114, 48]) 4 (brc_init 7) =
        (?st2\<lparr>klog := klog ?st2 @
              [Copy_to_user (take (4 * min (nat 4) 10) ex_indices), Kfree_skb (ex_indices_reply 8 0)]\<rparr>,
         Return (int (min (nat 4) 10)))"
    by simp
  have "user_copies (klog ?st2) = []"
    by (simp add: send_command_no_copy brc_init_def)
  with r h show ?thesis
    by (simp add: user_copies_append ex_indices_def)
qed

text \<open>
  The claim as stated fails for a reply that carries ten indices and the error code 2:
  with capacity 4 the call returns \<open>-2\<close> and copies nothing.
\<close>

theorem get_indices_error_code_first_counterexample:
  "well_formed_reply (ex_indices_reply 8 2) \<and>
   map_option length
     (snd (nlmsg_parse (ex_indices_reply 8 2) brc_genl_policy) BRC_GENL_A_IFINDEXES) = Some (4 * 10) \<and>
   snd (brc_get_indices 100 (ex_ioctl (ex_indices_reply 8 2) 16) BRC_GENL_C_GET_PORTS
          (Some [98, 114, 48]) 4 (brc_init 7)) = Return (- 2) \<and>
   user_copies (klog (fst (brc_get_indices 100 (ex_ioctl (ex_indices_reply 8 2) 16)
          BRC_GENL_C_GET_PORTS (Some [98, 114, 48]) 4 (brc_init 7)))) = []"
  by (simp add: adapter_ex_defs adapter_eval_defs well_formed_reply_def)

text \<open>
  C6 (as amended). The claim says that every reply whose data length is not a multiple
  of the entry size, or exceeds the clamped maximum, is rejected with an
  invalid-argument error. \<open>brc_get_fdb_entries\<close> looks at the error code of the reply
  first (lines 279-281) and returns it, negated, whatever the data; and a reply is
  only as good as the copy to the caller. What holds is:

  every request a forwarding-table query sends carries as its count the requested
  maximum clamped to \<open>PAGE_SIZE / sizeof(struct __fdb_entry)\<close>; whenever the query
  returns a value \<open>v \<ge> 0\<close>, then \<open>v\<close> is at most the requested and the clamped
  maximum and exactly \<open>v\<close> whole entries were copied; a reply whose error code passes
  the test and whose data length is not a multiple of the entry size, or is more than
  the clamped maximum of entries, is rejected with \<open>-EINVAL\<close>; otherwise the call
  returns the number of entries, provided the caller's buffer can be written
  (\<open>-EFAULT\<close> if not). A reply whose negated error code is negative makes the call
  return that value.
\<close>

theorem fdb_entries_clamped_and_checked:
  "list_all (\<lambda>rq. (BRC_GENL_A_FDB_COUNT, u64_bytes (min maxnum (PAGE_SIZE div sizeof_fdb_entry)))
                     \<in> set (nlattrs rq))
     (drop (length (multicasts (klog st)))
        (multicasts (klog (fst (brc_get_fdb_entries HZ PAGE_SIZE env dev_name maxnum offset st))))) \<and>
   (\<forall>v. snd (brc_get_fdb_entries HZ PAGE_SIZE env dev_name maxnum offset st) = Return v \<and> 0 \<le> v \<longrightarrow>
      nat v \<le> maxnum \<and> nat v \<le> PAGE_SIZE div sizeof_fdb_entry \<and>
      map length (drop (length (user_copies (klog st)))
        (user_copies (klog (fst (brc_get_fdb_entries HZ PAGE_SIZE env dev_name maxnum offset st))))) =
        [sizeof_fdb_entry * nat v]) \<and>
   (brc_make_request env BRC_GENL_C_FDB_QUERY (Some dev_name) None st = (st1, Some request0) \<and>
    nla_put (nla_room env) BRC_GENL_A_FDB_COUNT
      (u64_bytes (min maxnum (PAGE_SIZE div sizeof_fdb_entry))) request0 = Some request1 \<and>
    nla_put (nla_room env) BRC_GENL_A_FDB_SKIP (u64_bytes offset) request1 = Some request \<and>
    brc_send_command HZ (round_trip env) request (kcall Rtnl_unlock st1) =
      (st2, Return (Inr (reply, tb))) \<and>
    nla_get_u32 (tb BRC_GENL_A_ERR_CODE) = Some code \<longrightarrow>
      (sint (- code) < 0 \<longrightarrow>
         brc_get_fdb_entries HZ PAGE_SIZE env dev_name maxnum offset st =
           (st2\<lparr>klog := klog st2 @ [Kfree_skb reply, Rtnl_lock]\<rparr>, Return (sint (- code)))) \<and>
      (\<not> sint (- code) < 0 \<and> tb BRC_GENL_A_FDB_DATA = Some data \<longrightarrow>
         brc_get_fdb_entries HZ PAGE_SIZE env dev_name maxnum offset st =
           (if length data mod sizeof_fdb_entry \<noteq> 0 \<or>
               length data div sizeof_fdb_entry > min maxnum (PAGE_SIZE div sizeof_fdb_entry)
            then (st2\<lparr>klog := klog st2 @ [Kfree_skb reply, Rtnl_lock]\<rparr>, Return (- EINVAL))
            else if length data \<le> uwritable env
            then (st2\<lparr>klog := klog st2 @ [Copy_to_user data, Kfree_skb reply, Rtnl_lock]\<rparr>,
                  Return (int (length data div sizeof_fdb_entry)))
            else (st2\<lparr>klog := klog st2 @ [Copy_to_user (take (uwritable env) data),
                                              Kfree_skb reply, Rtnl_lock]\<rparr>,
                  Return (- EFAULT)))))"
proof (intro conjI impI)
  show "list_all (\<lambda>rq. (BRC_GENL_A_FDB_COUNT, u64_bytes (min maxnum (PAGE_SIZE div sizeof_fdb_entry)))
                     \<in> set (nlattrs rq))
     (drop (length (multicasts (klog st)))
        (multicasts (klog (fst (brc_get_fdb_entries HZ PAGE_SIZE env dev_name maxnum offset st)))))"
    using fdb_overall [of maxnum PAGE_SIZE st HZ env dev_name offset] by blast
  show "\<forall>v. snd (brc_get_fdb_entries HZ PAGE_SIZE env dev_name maxnum offset st) = Return v \<and> 0 \<le> v \<longrightarrow>
      nat v \<le> maxnum \<and> nat v \<le> PAGE_SIZE div sizeof_fdb_entry \<and>
      map length (drop (length (user_copies (klog st)))
        (user_copies (klog (fst (brc_get_fdb_entries HZ PAGE_SIZE env dev_name maxnum offset st))))) =
        [sizeof_fdb_entry * nat v]"
    using fdb_overall [of maxnum PAGE_SIZE st HZ env dev_name offset] by blast
next
  assume "brc_make_request env BRC_GENL_C_FDB_QUERY (Some dev_name) None st = (st1, Some request0) \<and>
    nla_put (nla_room env) BRC_GENL_A_FDB_COUNT
      (u64_bytes (min maxnum (PAGE_SIZE div sizeof_fdb_entry))) request0 = Some request1 \<and>
    nla_put (nla_room env) BRC_GENL_A_FDB_SKIP (u64_bytes offset) request1 = Some request \<and>
    brc_send_command HZ (round_trip env) request (kcall Rtnl_unlock st1) =
      (st2, Return (Inr (reply, tb))) \<and>
    nla_get_u32 (tb BRC_GENL_A_ERR_CODE) = Some code"
    and "sint (- code) < 0"
  then show "brc_get_fdb_entries HZ PAGE_SIZE env dev_name maxnum offset st =
           (st2\<lparr>klog := klog st2 @ [Kfree_skb reply, Rtnl_lock]\<rparr>, Return (sint (- code)))"
    by (intro fdb_error_reply [where ?request0.0 = request0 and ?request1.0 = request1
          and request = request and tb = tb and ?st1.0 = st1]) simp_all
next
  assume "brc_make_request env BRC_GENL_C_FDB_QUERY (Some dev_name) None st = (st1, Some request0) \<and>
    nla_put (nla_room env) BRC_GENL_A_FDB_COUNT
      (u64_bytes (min maxnum (PAGE_SIZE div sizeof_fdb_entry))) request0 = Some request1 \<and>
    nla_put (nla_room env) BRC_GENL_A_FDB_SKIP (u64_bytes offset) request1 = Some request \<and>
    brc_send_command HZ (round_trip env) request (kcall Rtnl_unlock st1) =
      (st2, Return (Inr (reply, tb))) \<and>
    nla_get_u32 (tb BRC_GENL_A_ERR_CODE) = Some code"
    and "\<not> sint (- code) < 0 \<and> tb BRC_GENL_A_FDB_DATA = Some data"
  then show "brc_get_fdb_entries HZ PAGE_SIZE env dev_name maxnum offset st =
           (if length data mod sizeof_fdb_entry \<noteq> 0 \<or>
               length data div sizeof_fdb_entry > min maxnum (PAGE_SIZE div sizeof_fdb_entry)
            then (st2\<lparr>klog := klog st2 @ [Kfree_skb reply, Rtnl_lock]\<rparr>, Return (- EINVAL))
            else if length data \<le> uwritable env
            then (st2\<lparr>klog := klog st2 @ [Copy_to_user data, Kfree_skb reply, Rtnl_lock]\<rparr>,
                  Return (int (length data div sizeof_fdb_entry)))
            else (st2\<lparr>klog := klog st2 @ [Copy_to_user (take (uwritable env) data),
                                              Kfree_skb reply, Rtnl_lock]\<rparr>,
                  Return (- EFAULT)))"
    by (intro fdb_exact [where ?request0.0 = request0 and ?request1.0 = request1
          and request = request and tb = tb and ?st1.0 = st1 and code = code]) simp_all
qed

theorem fdb_entries_clamped_and_checked_witness:
  "brc_make_request (ex_ioctl (ex_fdb_reply 8 0 32) 4096) BRC_GENL_C_FDB_QUERY
      (Some [98, 114, 48]) None (brc_init 7) =
     (brc_init 7\<lparr>klog := [Genlmsg_new]\<rparr>, Some (ex_fdb_query 0)) \<and>
   min 1000 (4096 div sizeof_fdb_entry) = 256 \<and>
   nla_put 3 BRC_GENL_A_FDB_COUNT (u64_bytes 256) (ex_fdb_query 0) = Some (ex_fdb_query 1) \<and>
   nla_put 3 BRC_GENL_A_FDB_SKIP (u64_bytes 0) (ex_fdb_query 1) = Some (ex_fdb_query 2) \<and>
   snd (brc_send_command 100 (round_trip (ex_ioctl (ex_fdb_reply 8 0 32) 4096)) (ex_fdb_query 2)
          (brc_init 7\<lparr>klog := [Genlmsg_new, Rtnl_unlock]\<rparr>)) =
     Return (Inr (ex_fdb_reply 8 0 32, snd (nlmsg_parse (ex_fdb_reply 8 0 32) brc_genl_policy))) \<and>
   snd (nlmsg_parse (ex_fdb_reply 8 0 32) brc_genl_policy) BRC_GENL_A_FDB_DATA =
     Some (replicate 32 170) \<and>
   snd (brc_get_fdb_entries 100 4096 (ex_ioctl (ex_fdb_reply 8 0 32) 4096) [98, 114, 48] 1000 0
          (brc_init 7)) = Return 2 \<and>
   multicasts (klog (fst (brc_get_fdb_entries 100 4096 (ex_ioctl (ex_fdb_reply 8 0 32) 4096)
          [98, 114, 48] 1000 0 (brc_init 7)))) = [ex_fdb_query 2\<lparr>nlmsg_seq := 8\<rparr>] \<and>
   map_of (nlattrs (ex_fdb_query 2)) BRC_GENL_A_FDB_COUNT = Some (u64_bytes 256)"
proof -
  let ?env = "ex_ioctl (ex_fdb_reply 8 0 32) 4096"
  let ?tb = "snd (nlmsg_parse (ex_fdb_reply 8 0 32) brc_genl_policy)"
  let ?st1 = "brc_init 7\<lparr>klog := [Genlmsg_new]\<rparr>"
  let ?st2 = "fst (brc_send_command 100 (round_trip ?env) (ex_fdb_query 2) (kcall Rtnl_unlock ?st1))"
  have c: "min 1000 (4096 div sizeof_fdb_entry) = 256" by (simp add: sizeof_fdb_entry_def)
  have b: "u64_bytes 256 = [0, 1, 0, 0, 0, 0, 0, 0]" "u64_bytes 0 = [0, 0, 0, 0, 0, 0, 0, 0]"
    by (simp_all add: u64_bytes_def upt_conv_Cons)
  have k: "kcall Rtnl_unlock ?st1 = brc_init 7\<lparr>klog := [Genlmsg_new, Rtnl_unlock]\<rparr>"
    by (simp add: kcall_def brc_init_def)
  have h: "brc_make_request ?env BRC_GENL_C_FDB_QUERY (Some [98, 114, 48]) None (brc_init 7) =
             (?st1, Some (ex_fdb_query 0))"
    "nla_put (nla_room ?env) BRC_GENL_A_FDB_COUNT
       (u64_bytes (min 1000 (4096 div sizeof_fdb_entry))) (ex_fdb_query 0) = Some (ex_fdb_query 1)"
    "nla_put (nla_room ?env) BRC_GENL_A_FDB_SKIP (u64_bytes 0) (ex_fdb_query 1) = Some (ex_fdb_query 2)"
    "snd (brc_send_command 100 (round_trip ?env) (ex_fdb_query 2) (kcall Rtnl_unlock ?st1)) =
       Return (Inr (ex_fdb_reply 8 0 32, ?tb))"
    "nla_get_u32 (?tb BRC_GENL_A_ERR_CODE) = Some 0" "\<not> sint (- (0 :: u32)) < 0"
    "?tb BRC_GENL_A_FDB_DATA = Some (replicate 32 170)"
    unfolding c b
    by (simp_all add: ex_fdb_reply_def ex_ioctl_def ex_fdb_query_def brc_make_request_def
          nla_put_def eval_defs)
  have sc: "brc_send_command 100 (round_trip ?env) (ex_fdb_query 2) (kcall Rtnl_unlock ?st1) =
              (?st2, Return (Inr (ex_fdb_reply 8 0 32, ?tb)))"
    using h(4) by (simp add: prod_eq_iff)
  from fdb_entries_clamped_and_checked
         [where maxnum = 1000 and PAGE_SIZE = 4096 and st = "brc_init 7" and HZ = 100
             and env = ?env and dev_name = "[98, 114, 48]" and offset = 0
             and ?st1.0 = ?st1 and ?st2.0 = ?st2
             and ?request0.0 = "ex_fdb_query 0" and ?request1.0 = "ex_fdb_query 1"
             and request = "ex_fdb_query 2" and reply = "ex_fdb_reply 8 0 32" and tb = ?tb
             and code = 0 and data = "replicate 32 170"] h sc
  have r: "snd (brc_get_fdb_entries 100 4096 ?env [98, 114, 48] 1000 0 (brc_init 7)) = Return 2"
    by (simp add: sizeof_fdb_entry_def ex_ioctl_def)
  have m: "multicasts (klog (fst (brc_get_fdb_entries 100 4096 ?env [98, 114, 48] 1000 0
             (brc_init 7)))) = [ex_fdb_query 2\<lparr>nlmsg_seq := 8\<rparr>]"
    by (simp add: adapter_ex_defs adapter_eval_defs ex_fdb_query_def upt_conv_Cons)
  have a: "map_of (nlattrs (ex_fdb_query 2)) BRC_GENL_A_FDB_COUNT = Some (u64_bytes 256)"
    by (simp add: ex_fdb_query_def b)
  from h c b k r m a show ?thesis by (simp add: ex_ioctl_def)
qed

text \<open>
  The claim as stated fails for a reply that carries five bytes of data and the error
  code 2: the call returns \<open>-2\<close>, which is not \<open>-EINVAL\<close>.
\<close>

theorem fdb_error_code_first_counterexample:
  "well_formed_reply (ex_fdb_reply 8 2 5) \<and>
   map_option length
     (snd (nlmsg_parse (ex_fdb_reply 8 2 5) brc_genl_policy) BRC_GENL_A_FDB_DATA) = Some 5 \<and>
   5 mod sizeof_fdb_entry \<noteq> 0 \<and>
   snd (brc_get_fdb_entries 100 4096 (ex_ioctl (ex_fdb_reply 8 2 5) 4096) [98, 114, 48] 1000 0
          (brc_init 7)) = Return (- 2) \<and>
   - 2 \<noteq> - EINVAL"
  by (simp add: adapter_ex_defs adapter_eval_defs well_formed_reply_def)

end
